theory Spec2Isabelle
  imports Complex_Main
begin

section \<open>Routing capture for Mixture-of-Experts runners (inference/runner.py)\<close>

text \<open>
  The theory embeds \<^verbatim>\<open>src/inference/runner.py\<close>: the class \<^verbatim>\<open>MoERunner\<close> with its
  factory \<^verbatim>\<open>from_name\<close>, and its two subclasses \<^verbatim>\<open>OpenMoERunner\<close> and
  \<^verbatim>\<open>MixtralRunner\<close>. Python objects that the code mutates (the dictionaries of selected
  experts, the gradient mode, the effects on the providers of models and tokenizers)
  live in an explicit program state that every operation takes and returns.
\<close>

subsection \<open>Python values and errors\<close>

datatype error =
    NotImplementedError
  | AttributeError
  | TypeError
  | RuntimeError
  | ProviderError string

datatype pyval = PyNone | PyBool bool | PyInt int | PyStr string

fun truthy :: "pyval \<Rightarrow> bool" where
  "truthy PyNone = False"
| "truthy (PyBool b) = b"
| "truthy (PyInt i) = (i \<noteq> 0)"
| "truthy (PyStr s) = (s \<noteq> [])"

type_synonym kwargs = "(string \<times> pyval) list"

subsection \<open>Tensors\<close>

text \<open>
  A two-dimensional floating-point tensor: its element type, the size of its second
  dimension and its rows. The elements are the real numbers the floats denote;
  rounding, infinities and NaN are not modelled. A tensor of token ids carries the
  device it lives on; a tensor of expert indices (a \<^verbatim>\<open>LongTensor\<close>) is a list of rows of
  naturals.
\<close>

datatype dtype = Float16 | Float32

datatype device = Cpu | Cuda

record tensor =
  t_dtype :: dtype
  t_ncols :: nat
  t_rows :: "real list list"

record ids_tensor =
  i_device :: device
  i_data :: "int list list"

type_synonym index_tensor = "nat list list"

definition rectangular :: "tensor \<Rightarrow> bool" where
  "rectangular t = list_all (\<lambda>r. length r = t_ncols t) (t_rows t)"

definition cuda :: "ids_tensor \<Rightarrow> ids_tensor" where
  "cuda t = t\<lparr>i_device := Cuda\<rparr>"

subsection \<open>The primitives of torch the runner calls\<close>

text \<open>
  \<^verbatim>\<open>F.softmax(input, dim=1, dtype=dt)\<close> on a two-dimensional tensor: the input is cast
  to \<open>dt\<close> and every row is normalised. The result has element type \<open>dt\<close> whatever
  the element type of the input. The weights here are exact: \<open>dt\<close> is carried as a tag
  and changes no value, so where float32 rounding or underflow makes two weights of
  the program equal, the experts the program selects can differ from those selected
  here. The properties below are about the keys of the record, the number of its
  entries and the shape of the index tensors, none of which depends on the weights.
\<close>

definition softmax_row :: "real list \<Rightarrow> real list" where
  "softmax_row xs = map (\<lambda>x. exp x / sum_list (map exp xs)) xs"

definition softmax :: "tensor \<Rightarrow> dtype \<Rightarrow> tensor" where
  "softmax t dt = t\<lparr>t_dtype := dt, t_rows := map softmax_row (t_rows t)\<rparr>"

text \<open>
  Modelled from the spec: \<^verbatim>\<open>torch.topk(input, k, dim=-1)\<close> is a primitive of the torch
  library, whose code is not part of the repository. Section 4.2.2 describes it as an
  order-preserving top-k whose ties are broken by the lowest expert index: the indices
  of a row are sorted by descending weight with a stable sort, and the first \<open>k\<close> are
  kept; the values come with them. As in torch, the call raises a \<^verbatim>\<open>RuntimeError\<close>
  when \<open>k\<close> exceeds the size of the dimension.
\<close>

definition topk_row :: "real list \<Rightarrow> nat \<Rightarrow> nat list" where
  "topk_row ws k = take k (sort_key (\<lambda>i. - (ws ! i)) [0..<length ws])"

definition topk :: "tensor \<Rightarrow> nat \<Rightarrow> error + (tensor \<times> index_tensor)" where
  "topk t k =
     (if t_ncols t < k then Inl RuntimeError
      else
        let indices = map (\<lambda>r. topk_row r k) (t_rows t);
            values = t\<lparr>t_ncols := k, t_rows := map (\<lambda>r. map ((!) r) (topk_row r k)) (t_rows t)\<rparr>
        in Inr (values, indices))"

text \<open>
  The selection the spec asks of top-k, stated on its own: \<open>a\<close> ranks before \<open>b\<close> when
  its weight is higher, or equal with \<open>a\<close> the lower index; \<open>js\<close> is the top-k of \<open>ws\<close>
  when it lists \<open>k\<close> distinct indices of \<open>ws\<close> (all of them when \<open>ws\<close> is shorter), each
  ranking before the next, and every index left out ranks after all of them.
\<close>

definition ranks_before :: "real list \<Rightarrow> nat \<Rightarrow> nat \<Rightarrow> bool" where
  "ranks_before ws a b = (ws ! b < ws ! a \<or> (ws ! a = ws ! b \<and> a < b))"

definition is_topk :: "real list \<Rightarrow> nat \<Rightarrow> nat list \<Rightarrow> bool" where
  "is_topk ws k js =
     (length js = min k (length ws) \<and> distinct js \<and> list_all (\<lambda>j. j < length ws) js \<and>
      sorted_wrt (ranks_before ws) js \<and>
      list_all (\<lambda>b. b \<in> set js \<or> list_all (\<lambda>a. ranks_before ws a b) js) [0..<length ws])"

text \<open>
  A tensor of expert indices with \<open>k\<close> distinct experts per token, each below the
  number \<open>ne\<close> of experts.
\<close>

definition well_shaped :: "nat \<Rightarrow> nat \<Rightarrow> index_tensor \<Rightarrow> bool" where
  "well_shaped k ne t =
     list_all (\<lambda>row. length row = k \<and> distinct row \<and> list_all (\<lambda>e. e < ne) row) t"

subsection \<open>The record of selected experts\<close>

text \<open>
  \<^verbatim>\<open>LayerSelectedExperts = Dict[str, List[torch.LongTensor]]\<close>, held in a
  \<^verbatim>\<open>defaultdict(list)\<close>: reading a missing key yields the empty list, and
  \<^verbatim>\<open>d[key].append(x)\<close> creates the key when it is missing.
\<close>

type_synonym LayerSelectedExperts = "string \<rightharpoonup> index_tensor list"

definition entries :: "LayerSelectedExperts \<Rightarrow> string \<Rightarrow> index_tensor list" where
  "entries d key = (case d key of None \<Rightarrow> [] | Some xs \<Rightarrow> xs)"

definition dd_append :: "LayerSelectedExperts \<Rightarrow> string \<Rightarrow> index_tensor \<Rightarrow> LayerSelectedExperts" where
  "dd_append d key x = d(key \<mapsto> entries d key @ [x])"

text \<open>The decimal representation of a natural number, as an f-string prints it.\<close>

fun string_of_nat :: "nat \<Rightarrow> string" where
  "string_of_nat n =
     (if n < 10 then [char_of (48 + n)]
      else string_of_nat (n div 10) @ [char_of (48 + n mod 10)])"

declare string_of_nat.simps [simp del]

text \<open>The key \<^verbatim>\<open>f"layer_{i}.router"\<close>.\<close>

definition layer_key :: "nat \<Rightarrow> string" where
  "layer_key i = ''layer_'' @ string_of_nat i @ ''.router''"

subsection \<open>Tokenizers, models and their providers\<close>

record tokenizer =
  tok_name :: string
  model_max_length :: int
  pad_token :: "string option"
  eos_token :: "string option"

text \<open>
  A loaded Mixtral model: the field of its configuration the runner reads, and its
  forward computation with \<^verbatim>\<open>output_router_logits=True\<close>, which yields the tuple
  \<^verbatim>\<open>outputs.router_logits\<close> (one tensor of scores per layer) or raises.
\<close>

record mixtral_model =
  num_experts_per_tok :: nat
  mx_forward :: "ids_tensor option \<Rightarrow> ids_tensor option \<Rightarrow> kwargs \<Rightarrow> error + tensor list"

record openmoe_config =
  num_experts :: int
  moe_layer_interval :: int
  enable_kernel :: bool

text \<open>
  Modelled from the spec: the OpenMoE model (\<^verbatim>\<open>models/modelling_openmoe.py\<close>) is not
  under \<^verbatim>\<open>src/\<close>. Sections 2 and 4.3 describe a model as a structure of submodules some
  of which are routers; a forward pass goes through every router, which produces its
  routing decision for the input. The model here lists the paths of its routers in the
  order of the pass, gives the decision of each, and carries the observers attached to
  its routers, each with the address of the accumulator it appends to.
\<close>

record openmoe_model =
  oe_config :: openmoe_config
  oe_routers :: "string list"
  oe_route :: "string \<Rightarrow> ids_tensor option \<Rightarrow> ids_tensor option \<Rightarrow> kwargs \<Rightarrow> index_tensor"
  oe_hooks :: "(string \<times> nat) list"

text \<open>
  The providers are outside the repository: \<^verbatim>\<open>AutoTokenizer.from_pretrained\<close>,
  \<^verbatim>\<open>AutoConfig.from_pretrained\<close> and the \<^verbatim>\<open>from_pretrained\<close> of the two model classes.
  Each returns an object or raises.
\<close>

record providers =
  tokenizer_from_pretrained :: "string \<Rightarrow> int \<Rightarrow> error + tokenizer"
  config_from_pretrained :: "string \<Rightarrow> error + openmoe_config"
  openmoe_from_pretrained :: "string \<Rightarrow> openmoe_config \<Rightarrow> error + openmoe_model"
  mixtral_from_pretrained :: "string \<Rightarrow> error + mixtral_model"

subsection \<open>The program state\<close>

text \<open>
  The effects on the world outside the runner, in the order they happen: the calls to
  the providers, the write of the tokenizer's pad token, and the forward passes, each
  with the gradient mode it ran under.
\<close>

datatype event =
    LoadTokenizer string int
  | LoadConfig string
  | LoadModel string
  | SetPadToken "string option"
  | ForwardPass string bool

text \<open>
  \<open>cls_activated_experts\<close> is the one dictionary that line 28 creates when the class
  \<^verbatim>\<open>MoERunner\<close> is defined (\<^verbatim>\<open>activated_experts = defaultdict(list)\<close>, a class
  attribute). \<open>accumulators\<close> holds the dictionaries allocated by
  \<^verbatim>\<open>set_router_hook\<close>, by address. \<open>grad_enabled\<close> is the gradient mode of torch, and
  \<open>cuda_available\<close> the answer of \<^verbatim>\<open>torch.cuda.is_available()\<close>.
\<close>

record pystate =
  cls_activated_experts :: LayerSelectedExperts
  accumulators :: "nat \<rightharpoonup> LayerSelectedExperts"
  next_addr :: nat
  grad_enabled :: bool
  cuda_available :: bool
  trace :: "event list"

datatype dict_ref = ClassAttr | Accumulator nat

definition acc_at :: "(nat \<rightharpoonup> LayerSelectedExperts) \<Rightarrow> nat \<Rightarrow> LayerSelectedExperts" where
  "acc_at accs a = (case accs a of None \<Rightarrow> Map.empty | Some d \<Rightarrow> d)"

text \<open>The dictionary a reference denotes in a state.\<close>

fun deref :: "pystate \<Rightarrow> dict_ref \<Rightarrow> LayerSelectedExperts" where
  "deref s ClassAttr = cls_activated_experts s"
| "deref s (Accumulator a) = acc_at (accumulators s) a"

definition log_event :: "event \<Rightarrow> pystate \<Rightarrow> pystate" where
  "log_event e s = s\<lparr>trace := trace s @ [e]\<rparr>"

text \<open>The state of a fresh interpreter that has imported the module.\<close>

definition initial_state :: "bool \<Rightarrow> pystate" where
  "initial_state has_cuda =
     \<lparr>cls_activated_experts = Map.empty, accumulators = Map.empty, next_addr = 0,
      grad_enabled = True, cuda_available = has_cuda, trace = []\<rparr>"

subsection \<open>Observer attachment\<close>

text \<open>
  Modelled from the spec: \<^verbatim>\<open>set_openmoe_args\<close> (\<^verbatim>\<open>inference/utils.py\<close>) is not under
  \<^verbatim>\<open>src/\<close>. Section 4.2.1: it overrides the configuration fields for the expert count,
  the layer interval and the optimized kernel path.
\<close>

definition set_openmoe_args :: "openmoe_config \<Rightarrow> int \<Rightarrow> int \<Rightarrow> bool \<Rightarrow> openmoe_config" where
  "set_openmoe_args config ne mli ek =
     config\<lparr>num_experts := ne, moe_layer_interval := mli, enable_kernel := ek\<rparr>"

text \<open>
  Modelled from the spec: \<^verbatim>\<open>set_router_hook\<close> (\<^verbatim>\<open>inference/hooks.py\<close>) is not under
  \<^verbatim>\<open>src/\<close>. Section 4.3: it finds every router of the model and registers on each an
  observer that appends the router's decision to a shared accumulator, under a key
  derived from the router's path (here the path itself), without changing what the
  router returns; it returns the accumulator and the handles of the observers. By
  section 3 the accumulator has one key per router discovered at attachment, so it
  starts with an empty sequence for each; with no router it is empty.
\<close>

definition set_router_hook ::
  "openmoe_model \<Rightarrow> pystate \<Rightarrow> (nat \<times> string list) \<times> openmoe_model \<times> pystate" where
  "set_router_hook m s =
     (let a = next_addr s;
          acc = map_of (map (\<lambda>p. (p, [])) (oe_routers m))
      in ((a, oe_routers m),
          m\<lparr>oe_hooks := oe_hooks m @ map (\<lambda>p. (p, a)) (oe_routers m)\<rparr>,
          s\<lparr>accumulators := (accumulators s)(a \<mapsto> acc), next_addr := Suc a\<rparr>))"

text \<open>
  Modelled from the spec: what the observers do during a forward pass. After router
  \<open>p\<close> has produced its decision \<open>d\<close>, every observer registered on \<open>p\<close> appends \<open>d\<close>
  to its accumulator under the key of \<open>p\<close>.
\<close>

fun run_hooks ::
  "(string \<times> nat) list \<Rightarrow> string \<Rightarrow> index_tensor \<Rightarrow> (nat \<rightharpoonup> LayerSelectedExperts)
     \<Rightarrow> (nat \<rightharpoonup> LayerSelectedExperts)" where
  "run_hooks [] p d accs = accs"
| "run_hooks ((q, a) # hs) p d accs =
     run_hooks hs p d
       (if q = p then accs(a \<mapsto> dd_append (acc_at accs a) p d) else accs)"

fun openmoe_forward ::
  "openmoe_model \<Rightarrow> string list \<Rightarrow> ids_tensor option \<Rightarrow> ids_tensor option \<Rightarrow> kwargs
     \<Rightarrow> (nat \<rightharpoonup> LayerSelectedExperts) \<Rightarrow> (nat \<rightharpoonup> LayerSelectedExperts)" where
  "openmoe_forward m [] x am kw accs = accs"
| "openmoe_forward m (p # ps) x am kw accs =
     openmoe_forward m ps x am kw (run_hooks (oe_hooks m) p (oe_route m p x am kw) accs)"

subsection \<open>The runners\<close>

record openmoe_runner =
  omr_model_name :: string
  omr_tokenizer :: tokenizer
  omr_model :: openmoe_model
  omr_activated_experts :: nat

record mixtral_runner =
  mr_model_name :: string
  mr_tokenizer :: tokenizer
  mr_model :: mixtral_model

datatype runner = OpenMoERunner openmoe_runner | MixtralRunner mixtral_runner

text \<open>
  The attribute \<^verbatim>\<open>self.activated_experts\<close>. \<^verbatim>\<open>OpenMoERunner.__init__\<close> assigns it on the
  instance (line 75). \<^verbatim>\<open>MixtralRunner.__init__\<close> never assigns it, so the lookup on
  an instance finds the attribute of the class \<^verbatim>\<open>MoERunner\<close> (line 28).
\<close>

fun activated_experts :: "runner \<Rightarrow> dict_ref" where
  "activated_experts (OpenMoERunner self) = Accumulator (omr_activated_experts self)"
| "activated_experts (MixtralRunner self) = ClassAttr"

text \<open>\<^verbatim>\<open>OpenMoERunner.__init__(self, seq_len, **kwargs)\<close>, lines 57 to 75.\<close>

definition OpenMoERunner_init ::
  "providers \<Rightarrow> int \<Rightarrow> kwargs \<Rightarrow> pystate \<Rightarrow> (error + runner) \<times> pystate" where
  "OpenMoERunner_init P seq_len kwargs s =
     (let model_name = ''OrionZheng/openmoe-8b-1T'';
          s1 = log_event (LoadTokenizer ''google/umt5-small'' seq_len) s
      in case tokenizer_from_pretrained P ''google/umt5-small'' seq_len of
           Inl e \<Rightarrow> (Inl e, s1)
         | Inr tok \<Rightarrow>
             let s2 = log_event (LoadConfig model_name) s1
             in (case config_from_pretrained P model_name of
                   Inl e \<Rightarrow> (Inl e, s2)
                 | Inr config \<Rightarrow>
                     let config' = set_openmoe_args config (num_experts config)
                                     (moe_layer_interval config) False;
                         s3 = log_event (LoadModel model_name) s2
                     in (case openmoe_from_pretrained P model_name config' of
                           Inl e \<Rightarrow> (Inl e, s3)
                         | Inr model \<Rightarrow>
                             (case set_router_hook model s3 of
                                ((acc, hooks), model', s4) \<Rightarrow>
                                  (Inr (OpenMoERunner
                                         \<lparr>omr_model_name = model_name, omr_tokenizer = tok,
                                          omr_model = model', omr_activated_experts = acc\<rparr>),
                                   s4)))))"

text \<open>
  \<^verbatim>\<open>MixtralRunner.__init__(self, seq_len, use_quant=True, **kwargs)\<close>, lines 98 to
  113. \<open>kwargs\<close> are all the keyword arguments of the call, \<^verbatim>\<open>use_quant\<close> among them
  when the caller passes it.
\<close>

definition MixtralRunner_init ::
  "providers \<Rightarrow> int \<Rightarrow> kwargs \<Rightarrow> pystate \<Rightarrow> (error + runner) \<times> pystate" where
  "MixtralRunner_init P seq_len kwargs s =
     (let use_quant = (case map_of kwargs ''use_quant'' of None \<Rightarrow> PyBool True | Some v \<Rightarrow> v);
          model_name = (if truthy use_quant then ''TheBloke/mixtral-8x7b-v0.1-AWQ''
                        else ''mistralai/Mixtral-8x7B-v0.1'');
          s1 = log_event (LoadTokenizer model_name seq_len) s
      in case tokenizer_from_pretrained P model_name seq_len of
           Inl e \<Rightarrow> (Inl e, s1)
         | Inr tok \<Rightarrow>
             let tok' = tok\<lparr>pad_token := eos_token tok\<rparr>;
                 s2 = log_event (SetPadToken (eos_token tok)) s1;
                 s3 = log_event (LoadModel model_name) s2
             in (case mixtral_from_pretrained P model_name of
                   Inl e \<Rightarrow> (Inl e, s3)
                 | Inr model \<Rightarrow>
                     (Inr (MixtralRunner
                            \<lparr>mr_model_name = model_name, mr_tokenizer = tok', mr_model = model\<rparr>),
                      s3)))"

text \<open>\<^verbatim>\<open>MoERunner.from_name(cls, name, seq_len, **kwargs)\<close>, lines 41 to 49.\<close>

definition from_name ::
  "providers \<Rightarrow> string \<Rightarrow> int \<Rightarrow> kwargs \<Rightarrow> pystate \<Rightarrow> (error + runner) \<times> pystate" where
  "from_name P name seq_len kwargs s =
     (if name = ''openmoe'' then OpenMoERunner_init P seq_len kwargs s
      else if name = ''mixtral'' then MixtralRunner_init P seq_len kwargs s
      else (Inl NotImplementedError, s))"

text \<open>
  Lines 84 to 86 and 122 to 124: with an accelerator both inputs are moved onto it;
  \<^verbatim>\<open>None.cuda()\<close> raises \<^verbatim>\<open>AttributeError\<close>.
\<close>

definition to_device ::
  "pystate \<Rightarrow> ids_tensor option \<Rightarrow> ids_tensor option
     \<Rightarrow> error + (ids_tensor option \<times> ids_tensor option)" where
  "to_device s input_ids attention_mask =
     (if cuda_available s then
        (case input_ids of
           None \<Rightarrow> Inl AttributeError
         | Some x \<Rightarrow>
             (case attention_mask of
                None \<Rightarrow> Inl AttributeError
              | Some m \<Rightarrow> Inr (Some (cuda x), Some (cuda m))))
      else Inr (input_ids, attention_mask))"

text \<open>
  \<^verbatim>\<open>OpenMoERunner.__call__\<close>, lines 77 to 90. The decorator \<^verbatim>\<open>@torch.no_grad()\<close>
  switches the gradient mode off for the body and restores the previous mode when the
  body returns or raises. The forward pass changes the state through the observers
  only; the call returns the reference held in \<^verbatim>\<open>self.activated_experts\<close>.
\<close>

definition OpenMoERunner_call ::
  "openmoe_runner \<Rightarrow> ids_tensor option \<Rightarrow> ids_tensor option \<Rightarrow> kwargs \<Rightarrow> pystate
     \<Rightarrow> (error + dict_ref) \<times> pystate" where
  "OpenMoERunner_call self input_ids attention_mask kwargs s =
     (let prev = grad_enabled s;
          s0 = s\<lparr>grad_enabled := False\<rparr>;
          (res, s') =
            (case to_device s0 input_ids attention_mask of
               Inl e \<Rightarrow> (Inl e, s0)
             | Inr (input_ids', attention_mask') \<Rightarrow>
                 let s1 = log_event (ForwardPass (omr_model_name self) (grad_enabled s0)) s0;
                     s2 = s1\<lparr>accumulators :=
                            openmoe_forward (omr_model self) (oe_routers (omr_model self))
                              input_ids' attention_mask' kwargs (accumulators s1)\<rparr>
                 in (Inr (activated_experts (OpenMoERunner self)), s2))
      in (res, s'\<lparr>grad_enabled := prev\<rparr>))"

text \<open>
  The loop of lines 131 to 138 over \<^verbatim>\<open>enumerate(outputs.router_logits)\<close>, from index
  \<open>i\<close> on, on the dictionary \<open>d\<close>. An exception of \<^verbatim>\<open>torch.topk\<close> leaves the loop with
  the entries appended so far.
\<close>

fun record_layers ::
  "nat \<Rightarrow> tensor list \<Rightarrow> nat \<Rightarrow> LayerSelectedExperts \<Rightarrow> error option \<times> LayerSelectedExperts" where
  "record_layers i [] k d = (None, d)"
| "record_layers i (layer_router # rest) k d =
     (let routing_weights = softmax layer_router Float32
      in case topk routing_weights k of
           Inl e \<Rightarrow> (Some e, d)
         | Inr (_, selected_experts) \<Rightarrow>
             record_layers (Suc i) rest k (dd_append d (layer_key i) selected_experts))"

text \<open>
  \<^verbatim>\<open>MixtralRunner.__call__\<close>, lines 115 to 139. The decorator \<^verbatim>\<open>@torch.no_grad()\<close> of
  line 115 is commented out, so the forward pass runs under the gradient mode of the
  caller. A keyword \<^verbatim>\<open>output_router_logits\<close> among \<open>kwargs\<close> collides with the one
  line 128 passes, which is a \<^verbatim>\<open>TypeError\<close>. \<^verbatim>\<open>self.activated_experts\<close> is the
  dictionary of the class.
\<close>

definition MixtralRunner_call ::
  "mixtral_runner \<Rightarrow> ids_tensor option \<Rightarrow> ids_tensor option \<Rightarrow> kwargs \<Rightarrow> pystate
     \<Rightarrow> (error + dict_ref) \<times> pystate" where
  "MixtralRunner_call self input_ids attention_mask kwargs s =
     (case to_device s input_ids attention_mask of
        Inl e \<Rightarrow> (Inl e, s)
      | Inr (input_ids', attention_mask') \<Rightarrow>
          if ''output_router_logits'' \<in> set (map fst kwargs) then (Inl TypeError, s)
          else
            let s1 = log_event (ForwardPass (mr_model_name self) (grad_enabled s)) s
            in (case mx_forward (mr_model self) input_ids' attention_mask' kwargs of
                  Inl e \<Rightarrow> (Inl e, s1)
                | Inr router_logits \<Rightarrow>
                    (case record_layers 0 router_logits
                            (num_experts_per_tok (mr_model self)) (cls_activated_experts s1) of
                       (Some e, d) \<Rightarrow> (Inl e, s1\<lparr>cls_activated_experts := d\<rparr>)
                     | (None, d) \<Rightarrow>
                         (Inr (activated_experts (MixtralRunner self)),
                          s1\<lparr>cls_activated_experts := d\<rparr>))))"

text \<open>
  What lines 122 to 130 hand to the loop of \<^verbatim>\<open>MixtralRunner.__call__\<close>: the router
  scores the forward pass returns, or the exception raised before the loop starts.
\<close>

definition forward_outcome ::
  "mixtral_runner \<Rightarrow> ids_tensor option \<Rightarrow> ids_tensor option \<Rightarrow> kwargs \<Rightarrow> pystate
     \<Rightarrow> error + tensor list" where
  "forward_outcome self input_ids attention_mask kwargs s =
     (case to_device s input_ids attention_mask of
        Inl e \<Rightarrow> Inl e
      | Inr (input_ids', attention_mask') \<Rightarrow>
          if ''output_router_logits'' \<in> set (map fst kwargs) then Inl TypeError
          else mx_forward (mr_model self) input_ids' attention_mask' kwargs)"

text \<open>
  An \<^verbatim>\<open>OpenMoERunner\<close> as its constructor leaves it: the routers of its model have
  distinct paths, and each carries exactly the one observer of the runner's own
  accumulator.
\<close>

definition attached :: "openmoe_runner \<Rightarrow> bool" where
  "attached self =
     (distinct (oe_routers (omr_model self)) \<and>
      oe_hooks (omr_model self)
        = map (\<lambda>p. (p, omr_activated_experts self)) (oe_routers (omr_model self)))"

text \<open>The call of a runner, dispatched on its class.\<close>

fun infer ::
  "runner \<Rightarrow> ids_tensor option \<Rightarrow> ids_tensor option \<Rightarrow> kwargs \<Rightarrow> pystate
     \<Rightarrow> (error + dict_ref) \<times> pystate" where
  "infer (OpenMoERunner self) = OpenMoERunner_call self"
| "infer (MixtralRunner self) = MixtralRunner_call self"

subsection \<open>A synthetic model\<close>

text \<open>
  The stub of section 8: two layers, four experts, two experts per token, and the same
  fixed router scores for the two tokens of every layer. The providers hand out the
  stub for every identifier.
\<close>

definition stub_scores :: tensor where
  "stub_scores =
     \<lparr>t_dtype = Float16, t_ncols = 4,
      t_rows = [[2, 1 / 10, 1 / 10, 1 / 10], [1 / 10, 1 / 10, 2, 1 / 10]]\<rparr>"

definition stub_mixtral :: mixtral_model where
  "stub_mixtral =
     \<lparr>num_experts_per_tok = 2, mx_forward = (\<lambda>x m kw. Inr [stub_scores, stub_scores])\<rparr>"

definition stub_openmoe :: "openmoe_config \<Rightarrow> openmoe_model" where
  "stub_openmoe c =
     \<lparr>oe_config = c, oe_routers = [''blocks.0.router'', ''blocks.1.router''],
      oe_route = (\<lambda>p x m kw. [[0, 1], [2, 0]]), oe_hooks = []\<rparr>"

definition stub_providers :: providers where
  "stub_providers =
     \<lparr>tokenizer_from_pretrained =
        (\<lambda>name n. Inr \<lparr>tok_name = name, model_max_length = n, pad_token = None,
                          eos_token = Some ''</s>''\<rparr>),
      config_from_pretrained =
        (\<lambda>name. Inr \<lparr>num_experts = 4, moe_layer_interval = 1, enable_kernel = True\<rparr>),
      openmoe_from_pretrained = (\<lambda>name c. Inr (stub_openmoe c)),
      mixtral_from_pretrained = (\<lambda>name. Inr stub_mixtral)\<rparr>"

definition stub_ids :: ids_tensor where
  "stub_ids = \<lparr>i_device = Cpu, i_data = [[5, 7]]\<rparr>"

definition stub_mask :: ids_tensor where
  "stub_mask = \<lparr>i_device = Cpu, i_data = [[1, 1]]\<rparr>"

definition stub_mixtral_runner :: "bool \<Rightarrow> mixtral_runner" where
  "stub_mixtral_runner use_quant =
     \<lparr>mr_model_name = (if use_quant then ''TheBloke/mixtral-8x7b-v0.1-AWQ''
                       else ''mistralai/Mixtral-8x7B-v0.1''),
      mr_tokenizer = \<lparr>tok_name = (if use_quant then ''TheBloke/mixtral-8x7b-v0.1-AWQ''
                                   else ''mistralai/Mixtral-8x7B-v0.1''),
                      model_max_length = 128, pad_token = Some ''</s>'',
                      eos_token = Some ''</s>''\<rparr>,
      mr_model = stub_mixtral\<rparr>"

definition stub_openmoe_runner :: openmoe_runner where
  "stub_openmoe_runner =
     \<lparr>omr_model_name = ''OrionZheng/openmoe-8b-1T'',
      omr_tokenizer = \<lparr>tok_name = ''google/umt5-small'', model_max_length = 128,
                       pad_token = None, eos_token = Some ''</s>''\<rparr>,
      omr_model =
        \<lparr>oe_config = \<lparr>num_experts = 4, moe_layer_interval = 1, enable_kernel = False\<rparr>,
         oe_routers = [''blocks.0.router'', ''blocks.1.router''],
         oe_route = (\<lambda>p x m kw. [[0, 1], [2, 0]]),
         oe_hooks = [(''blocks.0.router'', 0), (''blocks.1.router'', 0)]\<rparr>,
      omr_activated_experts = 0\<rparr>"

text \<open>
  A run with two Mixtral runners in one process: the first is built in the initial
  state and called once; then the second is built, with \<^verbatim>\<open>use_quant=False\<close>, and
  called twice.
\<close>

definition first_runner_called :: pystate where
  "first_runner_called =
     snd (infer (MixtralRunner (stub_mixtral_runner True)) (Some stub_ids) (Some stub_mask) []
            (snd (from_name stub_providers ''mixtral'' 128 [] (initial_state False))))"

definition second_runner_built :: pystate where
  "second_runner_built =
     snd (from_name stub_providers ''mixtral'' 128 [(''use_quant'', PyBool False)]
            first_runner_called)"

definition second_runner_called_twice :: pystate where
  "second_runner_called_twice =
     snd (infer (MixtralRunner (stub_mixtral_runner False)) (Some stub_ids) (Some stub_mask) []
            (snd (infer (MixtralRunner (stub_mixtral_runner False)) (Some stub_ids)
                    (Some stub_mask) [] second_runner_built)))"

section \<open>Properties\<close>

subsection \<open>Layer keys\<close>

lemma string_of_nat_nonempty: "string_of_nat n \<noteq> []"
  by (subst string_of_nat.simps) simp

lemma digit_char_inj: "a < 10 \<Longrightarrow> b < 10 \<Longrightarrow> (char_of (48 + a) :: char) = char_of (48 + b) \<Longrightarrow> a = (b::nat)"
proof -
  assume a: "a < 10" and b: "b < 10" and e: "(char_of (48 + a) :: char) = char_of (48 + b)"
  from e have "of_char (char_of (48 + a) :: char) = (of_char (char_of (48 + b) :: char) :: nat)"
    by simp
  then have "(48 + a) mod 256 = (48 + b) mod 256"
    by (simp only: of_char_of)
  with a b show ?thesis by simp
qed

lemma string_of_nat_inj: "string_of_nat m = string_of_nat n \<Longrightarrow> m = n"
proof (induction m arbitrary: n rule: string_of_nat.induct)
  case (1 m)
  show ?case
  proof (cases "m < 10")
    case True
    then have sm: "string_of_nat m = [char_of (48 + m)]"
      by (subst string_of_nat.simps) simp
    show ?thesis
    proof (cases "n < 10")
      case nlt: True
      then have "string_of_nat n = [char_of (48 + n)]"
        by (subst string_of_nat.simps) simp
      with sm "1.prems" True nlt show ?thesis
        by (auto dest: digit_char_inj)
    next
      case False
      then have "string_of_nat n = string_of_nat (n div 10) @ [char_of (48 + n mod 10)]"
        by (subst string_of_nat.simps) simp
      with sm "1.prems" string_of_nat_nonempty [of "n div 10"] show ?thesis
        by (cases "string_of_nat (n div 10)") auto
    qed
  next
    case False
    then have sm: "string_of_nat m = string_of_nat (m div 10) @ [char_of (48 + m mod 10)]"
      by (subst string_of_nat.simps) simp
    show ?thesis
    proof (cases "n < 10")
      case True
      then have "string_of_nat n = [char_of (48 + n)]"
        by (subst string_of_nat.simps) simp
      with sm "1.prems" string_of_nat_nonempty [of "m div 10"] show ?thesis
        by (cases "string_of_nat (m div 10)") auto
    next
      case nge: False
      then have sn: "string_of_nat n = string_of_nat (n div 10) @ [char_of (48 + n mod 10)]"
        by (subst string_of_nat.simps) simp
      from sm sn "1.prems" have pre: "string_of_nat (m div 10) = string_of_nat (n div 10)"
        and lst: "(char_of (48 + m mod 10) :: char) = char_of (48 + n mod 10)"
        by auto
      from "1.IH" [OF False pre] have d: "m div 10 = n div 10" .
      from lst have r: "m mod 10 = n mod 10"
        by (rule digit_char_inj [rotated 2]) simp_all
      from d r show ?thesis
        by (metis div_mult_mod_eq)
    qed
  qed
qed

lemma layer_key_inj: "layer_key i = layer_key j \<longleftrightarrow> i = j"
  by (auto simp: layer_key_def dest: string_of_nat_inj)

lemma entries_dd_append:
  "entries (dd_append d key x) key' = (if key' = key then entries d key @ [x] else entries d key')"
  by (simp add: entries_def dd_append_def)

lemma dom_dd_append: "dom (dd_append d key x) = insert key (dom d)"
  by (simp add: dd_append_def)

subsection \<open>Softmax and top-k\<close>

lemma insort_key_ranked:
  fixes f :: "nat \<Rightarrow> real"
  assumes "sorted_wrt (\<lambda>a b. f a < f b \<or> (f a = f b \<and> a < b)) ys"
    and "\<forall>y\<in>set ys. x < y"
  shows "sorted_wrt (\<lambda>a b. f a < f b \<or> (f a = f b \<and> a < b)) (insort_key f x ys)"
  using assms
proof (induction ys)
  case Nil
  then show ?case by simp
next
  case (Cons y ys)
  show ?case
  proof (cases "f x \<le> f y")
    case True
    have "f x < f z \<or> (f x = f z \<and> x < z)" if "z \<in> set (y # ys)" for z
    proof -
      have "f y \<le> f z" using that Cons.prems(1) by auto
      with True have "f x \<le> f z" by simp
      moreover have "x < z" using that Cons.prems(2) by auto
      ultimately show ?thesis by auto
    qed
    with True Cons.prems(1) show ?thesis by simp
  next
    case False
    have ih: "sorted_wrt (\<lambda>a b. f a < f b \<or> (f a = f b \<and> a < b)) (insort_key f x ys)"
      using Cons by simp
    from False Cons.prems(1) ih show ?thesis
      by (auto simp: set_insort_key)
  qed
qed

lemma sort_key_ranked:
  fixes f :: "nat \<Rightarrow> real"
  assumes "sorted_wrt (<) xs"
  shows "sorted_wrt (\<lambda>a b. f a < f b \<or> (f a = f b \<and> a < b)) (sort_key f xs)"
  using assms
proof (induction xs)
  case Nil
  then show ?case by simp
next
  case (Cons x xs)
  then show ?case
    by (simp add: insort_key_ranked)
qed

lemma ranked_indices:
  "sorted_wrt (ranks_before ws) (sort_key (\<lambda>i. - (ws ! i)) [0..<length ws])"
proof -
  have "sorted_wrt (<) [0..<length ws]"
    by (simp add: sorted_wrt_upt)
  from sort_key_ranked [OF this, of "\<lambda>i. - (ws ! i)"]
  have "sorted_wrt (\<lambda>a b. - (ws ! a) < - (ws ! b) \<or> (- (ws ! a) = - (ws ! b) \<and> a < b))
          (sort_key (\<lambda>i. - (ws ! i)) [0..<length ws])" .
  moreover have "(\<lambda>a b. - (ws ! a) < - (ws ! b) \<or> (- (ws ! a) = - (ws ! b) \<and> a < b)) = ranks_before ws"
    by (auto simp: ranks_before_def fun_eq_iff)
  ultimately show ?thesis by simp
qed

lemma length_topk_row: "length (topk_row ws k) = min k (length ws)"
  by (simp add: topk_row_def min.commute)

lemma set_topk_row: "set (topk_row ws k) \<subseteq> {..<length ws}"
proof -
  have "set (topk_row ws k) \<subseteq> set (sort_key (\<lambda>i. - (ws ! i)) [0..<length ws])"
    unfolding topk_row_def by (rule set_take_subset)
  then show ?thesis by auto
qed

lemma distinct_topk_row: "distinct (topk_row ws k)"
  by (simp add: topk_row_def)

lemma topk_row_is_topk: "is_topk ws k (topk_row ws k)"
proof -
  let ?l = "sort_key (\<lambda>i. - (ws ! i)) [0..<length ws]"
  have split: "?l = take k ?l @ drop k ?l" by simp
  have "sorted_wrt (ranks_before ws) (take k ?l @ drop k ?l)"
    using ranked_indices [of ws] by simp
  then have s1: "sorted_wrt (ranks_before ws) (take k ?l)"
    and cross: "\<forall>a\<in>set (take k ?l). \<forall>b\<in>set (drop k ?l). ranks_before ws a b"
    unfolding sorted_wrt_append by auto
  have rest: "b \<in> set (take k ?l) \<or> (\<forall>a\<in>set (take k ?l). ranks_before ws a b)"
    if "b < length ws" for b
  proof -
    from that have "b \<in> set ?l" by simp
    then have "b \<in> set (take k ?l) \<or> b \<in> set (drop k ?l)"
      by (metis Un_iff set_append split)
    with cross show ?thesis by auto
  qed
  have inr: "list_all (\<lambda>j. j < length ws) (topk_row ws k)"
    using set_topk_row [of ws k] by (auto simp: list_all_iff)
  show ?thesis
    unfolding is_topk_def
    using length_topk_row [of ws k] distinct_topk_row [of ws k] inr s1 rest
    by (auto simp: topk_row_def list_all_iff)
qed

text \<open>The selection is the only list with the properties of \<open>is_topk\<close>.\<close>

lemma ranks_before_asym: "ranks_before ws a b \<Longrightarrow> \<not> ranks_before ws b a"
  by (auto simp: ranks_before_def)

lemma sorted_wrt_asym_unique:
  assumes "\<And>a b. R a b \<Longrightarrow> \<not> R b a"
  shows "sorted_wrt R xs \<Longrightarrow> sorted_wrt R ys \<Longrightarrow> distinct xs \<Longrightarrow> distinct ys \<Longrightarrow>
         set xs = set ys \<Longrightarrow> xs = ys"
proof (induction xs arbitrary: ys)
  case Nil
  then show ?case by simp
next
  case (Cons x xs)
  from Cons.prems(5) obtain y ys' where ys: "ys = y # ys'"
    by (cases ys) auto
  have xy: "x = y"
  proof (rule ccontr)
    assume ne: "x \<noteq> y"
    with Cons.prems(5) ys have "x \<in> set ys'" and "y \<in> set xs" by auto
    with Cons.prems(1,2) ys have "R y x" and "R x y" by auto
    with assms show False by blast
  qed
  from Cons.prems(3,4,5) ys xy have "set xs = set ys'" by auto
  with Cons.IH [of ys'] Cons.prems(1-4) ys xy show ?case by simp
qed

lemma is_topk_set:
  assumes "is_topk ws k js"
  shows "length js = min k (length ws)" "distinct js" "set js \<subseteq> {..<length ws}"
    "sorted_wrt (ranks_before ws) js"
    "\<And>a b. a \<in> set js \<Longrightarrow> b < length ws \<Longrightarrow> b \<notin> set js \<Longrightarrow> ranks_before ws a b"
  using assms by (auto simp: is_topk_def list_all_iff)

lemma is_topk_unique:
  assumes "is_topk ws k js"
  shows "js = topk_row ws k"
proof -
  let ?T = "topk_row ws k"
  note j = is_topk_set [OF assms]
  note t = is_topk_set [OF topk_row_is_topk [of ws k]]
  have card: "card (set js) = card (set ?T)"
    using j(1,2) t(1,2) by (simp add: distinct_card)
  have sub: "set js \<subseteq> set ?T"
  proof (rule ccontr)
    assume "\<not> set js \<subseteq> set ?T"
    then obtain b where b: "b \<in> set js" "b \<notin> set ?T" by blast
    have "\<not> set ?T \<subseteq> set js"
    proof
      assume "set ?T \<subseteq> set js"
      then have "set ?T = set js"
        using card by (simp add: card_subset_eq)
      with b show False by simp
    qed
    then obtain a where a: "a \<in> set ?T" "a \<notin> set js" by blast
    from a(1) t(3) have "a < length ws" by auto
    from j(5) [OF b(1) this a(2)] have "ranks_before ws b a" .
    moreover from b(1) j(3) have "b < length ws" by auto
    from t(5) [OF a(1) this b(2)] have "ranks_before ws a b" .
    ultimately show False using ranks_before_asym by blast
  qed
  have "set js = set ?T"
    using sub card by (simp add: card_subset_eq)
  with j(2,4) t(2,4) show ?thesis
    by (intro sorted_wrt_asym_unique [of "ranks_before ws"]) (auto dest: ranks_before_asym)
qed

lemma insort_key_order_cong:
  fixes f g :: "'a \<Rightarrow> real"
  assumes "\<forall>b\<in>set ys. (f a \<le> f b) = (g a \<le> g b)"
  shows "insort_key f a ys = insort_key g a ys"
  using assms by (induction ys) auto

lemma sort_key_order_cong:
  fixes f g :: "'a \<Rightarrow> real"
  assumes "\<forall>a\<in>set xs. \<forall>b\<in>set xs. (f a \<le> f b) = (g a \<le> g b)"
  shows "sort_key f xs = sort_key g xs"
  using assms
proof (induction xs)
  case Nil
  then show ?case by simp
next
  case (Cons x xs)
  then have ih: "sort_key f xs = sort_key g xs" by simp
  have "insort_key f x (sort_key g xs) = insort_key g x (sort_key g xs)"
    by (rule insort_key_order_cong) (use Cons.prems in simp)
  with ih show ?case by simp
qed

lemma softmax_row_length: "length (softmax_row ws) = length ws"
  by (simp add: softmax_row_def)

lemma softmax_row_nth:
  "i < length ws \<Longrightarrow> softmax_row ws ! i = exp (ws ! i) / sum_list (map exp ws)"
  by (simp add: softmax_row_def)

lemma sum_exp_pos: "ws \<noteq> [] \<Longrightarrow> 0 < sum_list (map exp (ws :: real list))"
proof (induction ws)
  case Nil
  then show ?case by simp
next
  case (Cons w ws)
  have "0 < exp w" by simp
  moreover have "0 \<le> sum_list (map exp ws)"
    by (rule sum_list_nonneg) auto
  ultimately have "0 < exp w + sum_list (map exp ws)"
    by (rule add_pos_nonneg)
  then show ?case by simp
qed

lemma softmax_row_le_iff:
  assumes "i < length ws" "j < length ws"
  shows "(softmax_row ws ! j \<le> softmax_row ws ! i) = (ws ! j \<le> ws ! i)"
proof -
  from assms have "ws \<noteq> []" by auto
  then have "0 < sum_list (map exp ws)" by (rule sum_exp_pos)
  with assms show ?thesis
    by (simp add: softmax_row_nth divide_le_cancel)
qed

lemma topk_row_softmax: "topk_row (softmax_row ws) k = topk_row ws k"
proof -
  have "sort_key (\<lambda>i. - (softmax_row ws ! i)) [0..<length ws]
      = sort_key (\<lambda>i. - (ws ! i)) [0..<length ws]"
    by (rule sort_key_order_cong) (simp add: softmax_row_le_iff)
  then show ?thesis
    by (simp add: topk_row_def softmax_row_length)
qed

subsection \<open>The loop over the layers\<close>

lemma topk_Inr:
  "topk t k = Inr (v, sel) \<Longrightarrow> k \<le> t_ncols t \<and> sel = map (\<lambda>ws. topk_row ws k) (t_rows t)"
  by (auto simp: topk_def Let_def split: if_splits)

lemma topk_Inl: "topk t k = Inl e \<Longrightarrow> t_ncols t < k \<and> e = RuntimeError"
  by (auto simp: topk_def Let_def split: if_splits)

lemma topk_softmax_cases:
  obtains (fail) "t_ncols t < k" "topk (softmax t Float32) k = Inl RuntimeError"
  | (ok) v where "k \<le> t_ncols t"
      "topk (softmax t Float32) k = Inr (v, map (\<lambda>ws. topk_row ws k) (t_rows (softmax t Float32)))"
  by (cases "t_ncols t < k") (auto simp: topk_def softmax_def Let_def)

lemma record_layers_miss:
  "\<forall>j<length ts. key \<noteq> layer_key (i + j) \<Longrightarrow>
   entries (snd (record_layers i ts k d)) key = entries d key"
proof (induction ts arbitrary: i d)
  case Nil
  then show ?case by simp
next
  case (Cons t ts)
  from Cons.prems have k0: "key \<noteq> layer_key i" by force
  have rest: "\<forall>j<length ts. key \<noteq> layer_key (Suc i + j)"
  proof (intro allI impI)
    fix j assume "j < length ts"
    then have "Suc j < length (t # ts)" by simp
    with Cons.prems have "key \<noteq> layer_key (i + Suc j)" by blast
    then show "key \<noteq> layer_key (Suc i + j)" by simp
  qed
  show ?case
  proof (cases t k rule: topk_softmax_cases)
    case fail
    then show ?thesis by simp
  next
    case (ok v)
    with Cons.IH [OF rest] k0 show ?thesis
      by (simp add: entries_dd_append)
  qed
qed

lemma record_layers_ok_iff:
  "fst (record_layers i ts k d) = None \<longleftrightarrow> list_all (\<lambda>t. k \<le> t_ncols t) ts"
proof (induction ts arbitrary: i d)
  case Nil
  then show ?case by simp
next
  case (Cons t ts)
  show ?case
  proof (cases t k rule: topk_softmax_cases)
    case fail
    then show ?thesis by simp
  next
    case (ok v)
    with Cons.IH show ?thesis by simp
  qed
qed

lemma record_layers_hit:
  "fst (record_layers i ts k d) = None \<Longrightarrow> j < length ts \<Longrightarrow>
   entries (snd (record_layers i ts k d)) (layer_key (i + j))
     = entries d (layer_key (i + j))
       @ [map (\<lambda>ws. topk_row ws k) (t_rows (softmax (ts ! j) Float32))]"
proof (induction ts arbitrary: i j d)
  case Nil
  then show ?case by simp
next
  case (Cons t ts)
  show ?case
  proof (cases t k rule: topk_softmax_cases)
    case fail
    with Cons.prems show ?thesis by simp
  next
    case (ok v)
    let ?d1 = "dd_append d (layer_key i) (map (\<lambda>ws. topk_row ws k) (t_rows (softmax t Float32)))"
    from ok have step: "record_layers i (t # ts) k d = record_layers (Suc i) ts k ?d1"
      by simp
    show ?thesis
    proof (cases j)
      case 0
      have "\<forall>j'<length ts. layer_key i \<noteq> layer_key (Suc i + j')"
        by (simp add: layer_key_inj)
      from record_layers_miss [OF this, of k ?d1] step 0 show ?thesis
        by (simp add: entries_dd_append)
    next
      case (Suc j')
      with Cons.prems step have f: "fst (record_layers (Suc i) ts k ?d1) = None"
        and lt: "j' < length ts" by simp_all
      from Cons.IH [OF f lt] step Suc show ?thesis
        by (simp add: entries_dd_append layer_key_inj)
    qed
  qed
qed

lemma record_layers_dom_ok:
  "fst (record_layers i ts k d) = None \<Longrightarrow>
   dom (snd (record_layers i ts k d)) = dom d \<union> layer_key ` {i..<i + length ts}"
proof (induction ts arbitrary: i d)
  case Nil
  then show ?case by simp
next
  case (Cons t ts)
  show ?case
  proof (cases t k rule: topk_softmax_cases)
    case fail
    with Cons.prems show ?thesis by simp
  next
    case (ok v)
    have "{i..<i + length (t # ts)} = insert i {Suc i..<Suc i + length ts}"
      by auto
    with ok Cons show ?thesis
      by (simp add: dom_dd_append)
  qed
qed

lemma record_layers_dom_mono:
  "dom d \<subseteq> dom (snd (record_layers i ts k d)) \<and>
   dom (snd (record_layers i ts k d)) \<subseteq> dom d \<union> layer_key ` {i..<i + length ts}"
proof (induction ts arbitrary: i d)
  case Nil
  then show ?case by simp
next
  case (Cons t ts)
  show ?case
  proof (cases t k rule: topk_softmax_cases)
    case fail
    then show ?thesis by auto
  next
    case (ok v)
    let ?d1 = "dd_append d (layer_key i) (map (\<lambda>ws. topk_row ws k) (t_rows (softmax t Float32)))"
    have eq: "{i..<i + length (t # ts)} = insert i {Suc i..<Suc i + length ts}"
      by auto
    from Cons.IH [of ?d1 "Suc i"] ok show ?thesis
      unfolding eq by (auto simp: dom_dd_append)
  qed
qed

lemma topk_row_well_shaped:
  assumes "length ws = ne" "k \<le> ne"
  shows "length (topk_row ws k) = k \<and> distinct (topk_row ws k) \<and> list_all (\<lambda>e. e < ne) (topk_row ws k)"
  using assms set_topk_row [of ws k]
  by (auto simp: length_topk_row distinct_topk_row list_all_iff)

lemma selected_well_shaped:
  assumes "rectangular t" "k \<le> t_ncols t"
  shows "well_shaped k (t_ncols t) (map (\<lambda>ws. topk_row ws k) (t_rows (softmax t Float32)))"
proof -
  have "length (topk_row (softmax_row r) k) = k \<and> distinct (topk_row (softmax_row r) k)
        \<and> list_all (\<lambda>e. e < t_ncols t) (topk_row (softmax_row r) k)"
    if "r \<in> set (t_rows t)" for r
  proof (rule topk_row_well_shaped)
    from that assms(1) show "length (softmax_row r) = t_ncols t"
      by (simp add: rectangular_def list_all_iff softmax_row_length)
    show "k \<le> t_ncols t" by fact
  qed
  then show ?thesis
    by (simp add: well_shaped_def softmax_def list_all_iff)
qed

lemma record_layers_appends:
  assumes "list_all (\<lambda>t. rectangular t \<and> t_ncols t = ne) ts"
  shows "\<exists>added. entries (snd (record_layers i ts k d)) key = entries d key @ added
           \<and> list_all (well_shaped k ne) added"
  using assms
proof (induction ts arbitrary: i d)
  case Nil
  then show ?case by simp
next
  case (Cons t ts)
  show ?case
  proof (cases t k rule: topk_softmax_cases)
    case fail
    then show ?thesis by simp
  next
    case (ok v)
    let ?sel = "map (\<lambda>ws. topk_row ws k) (t_rows (softmax t Float32))"
    let ?d1 = "dd_append d (layer_key i) ?sel"
    from Cons.prems have tl: "list_all (\<lambda>t. rectangular t \<and> t_ncols t = ne) ts"
      and rt: "rectangular t" and nt: "t_ncols t = ne" by simp_all
    from Cons.IH [OF tl, of "Suc i" ?d1] obtain added where
      a: "entries (snd (record_layers (Suc i) ts k ?d1)) key = entries ?d1 key @ added"
      and w: "list_all (well_shaped k ne) added" by blast
    from selected_well_shaped [OF rt ok(1)] nt have ws: "well_shaped k ne ?sel" by simp
    show ?thesis
    proof (cases "key = layer_key i")
      case True
      with a ok have "entries (snd (record_layers i (t # ts) k d)) key = entries d key @ (?sel # added)"
        by (simp add: entries_dd_append)
      moreover from w ws have "list_all (well_shaped k ne) (?sel # added)" by simp
      ultimately show ?thesis by blast
    next
      case False
      with a ok have "entries (snd (record_layers i (t # ts) k d)) key = entries d key @ added"
        by (simp add: entries_dd_append)
      with w show ?thesis by blast
    qed
  qed
qed

subsection \<open>The call of a Mixtral runner\<close>

lemma MixtralRunner_call_scores:
  assumes "forward_outcome self input_ids attention_mask kwargs s = Inr ls"
  shows "MixtralRunner_call self input_ids attention_mask kwargs s =
           ((case fst (record_layers 0 ls (num_experts_per_tok (mr_model self)) (cls_activated_experts s)) of
               None \<Rightarrow> Inr ClassAttr | Some e \<Rightarrow> Inl e),
            (log_event (ForwardPass (mr_model_name self) (grad_enabled s)) s)
              \<lparr>cls_activated_experts :=
                 snd (record_layers 0 ls (num_experts_per_tok (mr_model self)) (cls_activated_experts s))\<rparr>)"
  using assms
  by (auto simp: MixtralRunner_call_def forward_outcome_def log_event_def Let_def
      split: sum.splits if_splits prod.splits option.splits)

lemma MixtralRunner_call_raised:
  assumes "forward_outcome self input_ids attention_mask kwargs s = Inl e"
  shows "fst (MixtralRunner_call self input_ids attention_mask kwargs s) = Inl e \<and>
         cls_activated_experts (snd (MixtralRunner_call self input_ids attention_mask kwargs s))
           = cls_activated_experts s"
  using assms
  by (auto simp: MixtralRunner_call_def forward_outcome_def log_event_def Let_def
      split: sum.splits if_splits prod.splits option.splits)

lemma MixtralRunner_call_returns:
  assumes "forward_outcome self input_ids attention_mask kwargs s = Inr ls"
    and "list_all (\<lambda>t. num_experts_per_tok (mr_model self) \<le> t_ncols t) ls"
  shows "MixtralRunner_call self input_ids attention_mask kwargs s =
           (Inr ClassAttr,
            (log_event (ForwardPass (mr_model_name self) (grad_enabled s)) s)
              \<lparr>cls_activated_experts :=
                 snd (record_layers 0 ls (num_experts_per_tok (mr_model self)) (cls_activated_experts s))\<rparr>)"
proof -
  from assms(2) have "fst (record_layers 0 ls (num_experts_per_tok (mr_model self)) (cls_activated_experts s)) = None"
    by (simp add: record_layers_ok_iff)
  with MixtralRunner_call_scores [OF assms(1)] show ?thesis by simp
qed

lemma selected_is_topk:
  "list_all2 (\<lambda>ws js. is_topk ws k js) rows (map (\<lambda>ws. topk_row ws k) rows)"
  by (simp add: list_all2_conv_all_nth topk_row_is_topk)

subsection \<open>The synthetic model, evaluated\<close>

lemma stub_forward_outcome:
  "forward_outcome (stub_mixtral_runner q) (Some stub_ids) (Some stub_mask) [] (initial_state c)
     = Inr [stub_scores, stub_scores]"
  by (simp add: forward_outcome_def to_device_def stub_mixtral_runner_def stub_mixtral_def
      initial_state_def)

lemma stub_scores_wide: "list_all (\<lambda>t. num_experts_per_tok (mr_model (stub_mixtral_runner q)) \<le> t_ncols t)
     [stub_scores, stub_scores]"
  by (simp add: stub_mixtral_runner_def stub_mixtral_def stub_scores_def)

lemma topk_row_stub:
  "topk_row [2, 1 / 10, 1 / 10, 1 / 10] 2 = [0, 1]"
  "topk_row [1 / 10, 1 / 10, 2, 1 / 10] 2 = [2, 0]"
  by code_simp+

lemma stub_selected:
  "map (\<lambda>ws. topk_row ws 2) (t_rows (softmax stub_scores Float32)) = [[0, 1], [2, 0]]"
  by (simp add: softmax_def stub_scores_def topk_row_softmax topk_row_stub)

lemma layer_key_numerals:
  "layer_key 0 = ''layer_0.router''" "layer_key 1 = ''layer_1.router''"
  "layer_key (Suc 0) = ''layer_1.router''"
  by code_simp+

subsection \<open>Shape of the selection\<close>

lemma record_layers_indep:
  "fst (record_layers i ts k d) = fst (record_layers i ts k Map.empty) \<and>
   entries (snd (record_layers i ts k d)) key
     = entries d key @ entries (snd (record_layers i ts k Map.empty)) key"
proof (induction ts arbitrary: i d)
  case Nil
  then show ?case by (simp add: entries_def)
next
  case (Cons t ts)
  show ?case
  proof (cases t k rule: topk_softmax_cases)
    case fail
    then show ?thesis by (simp add: entries_def)
  next
    case (ok v)
    let ?sel = "map (\<lambda>ws. topk_row ws k) (t_rows (softmax t Float32))"
    from Cons.IH [of "Suc i" "dd_append d (layer_key i) ?sel"]
      Cons.IH [of "Suc i" "dd_append Map.empty (layer_key i) ?sel"] ok
    show ?thesis
      by (simp add: entries_dd_append) (simp add: entries_def)
  qed
qed

lemma MixtralRunner_call_cls:
  assumes "forward_outcome self input_ids attention_mask kwargs s = Inr ls"
  shows "cls_activated_experts (snd (MixtralRunner_call self input_ids attention_mask kwargs s))
           = snd (record_layers 0 ls (num_experts_per_tok (mr_model self)) (cls_activated_experts s))"
    and "fst (MixtralRunner_call self input_ids attention_mask kwargs s)
           = (case fst (record_layers 0 ls (num_experts_per_tok (mr_model self)) (cls_activated_experts s)) of
               None \<Rightarrow> Inr ClassAttr | Some e \<Rightarrow> Inl e)"
  using MixtralRunner_call_scores [OF assms] by simp_all

text \<open>
  Claim C7. When the forward pass of a \<^verbatim>\<open>MixtralRunner\<close> has returned per-layer scores
  that are rectangular tensors over \<open>ne\<close> experts, then under every key the call only
  appends to what was recorded, whether it returns or raises, and every index tensor it
  appends selects for each token exactly the configured number of experts per token,
  all different and all below \<open>ne\<close>.
\<close>

theorem infer_mixtral_selects_k_experts_in_range:
  assumes "forward_outcome self input_ids attention_mask kwargs s = Inr ls"
    and "list_all (\<lambda>t. rectangular t \<and> t_ncols t = ne) ls"
  shows "\<exists>added.
           entries (deref (snd (infer (MixtralRunner self) input_ids attention_mask kwargs s)) ClassAttr) key
             = entries (deref s ClassAttr) key @ added \<and>
           list_all (well_shaped (num_experts_per_tok (mr_model self)) ne) added"
  using record_layers_appends [OF assms(2), of 0 "num_experts_per_tok (mr_model self)"
      "cls_activated_experts s" key]
  by (simp add: MixtralRunner_call_cls [OF assms(1)])

lemma stub_scores_rect: "list_all (\<lambda>t. rectangular t \<and> t_ncols t = 4) [stub_scores, stub_scores]"
  by (simp add: stub_scores_def rectangular_def)

lemma stub_run_entries:
  "entries (snd (record_layers 0 [stub_scores, stub_scores] 2 d)) ''layer_0.router''
     = entries d ''layer_0.router'' @ [[[0, 1], [2, 0]]]"
  "entries (snd (record_layers 0 [stub_scores, stub_scores] 2 d)) ''layer_1.router''
     = entries d ''layer_1.router'' @ [[[0, 1], [2, 0]]]"
proof -
  have ok: "fst (record_layers 0 [stub_scores, stub_scores] 2 d) = None"
    unfolding record_layers_ok_iff by (simp add: stub_scores_def)
  from record_layers_hit [OF ok, of 0] stub_selected
  show "entries (snd (record_layers 0 [stub_scores, stub_scores] 2 d)) ''layer_0.router''
     = entries d ''layer_0.router'' @ [[[0, 1], [2, 0]]]"
    by (simp add: layer_key_numerals del: record_layers.simps)
  from record_layers_hit [OF ok, of 1] stub_selected
  show "entries (snd (record_layers 0 [stub_scores, stub_scores] 2 d)) ''layer_1.router''
     = entries d ''layer_1.router'' @ [[[0, 1], [2, 0]]]"
    by (simp add: layer_key_numerals del: record_layers.simps)
qed

lemma stub_k: "num_experts_per_tok (mr_model (stub_mixtral_runner q)) = 2"
  by (simp add: stub_mixtral_runner_def stub_mixtral_def)

lemma stub_call_entries:
  "entries (cls_activated_experts (snd (MixtralRunner_call (stub_mixtral_runner q) (Some stub_ids)
       (Some stub_mask) [] (initial_state c)))) ''layer_0.router'' = [[[0, 1], [2, 0]]]"
  "entries (cls_activated_experts (snd (MixtralRunner_call (stub_mixtral_runner q) (Some stub_ids)
       (Some stub_mask) [] (initial_state c)))) ''layer_1.router'' = [[[0, 1], [2, 0]]]"
  by (simp_all add: MixtralRunner_call_cls [OF stub_forward_outcome] stub_k stub_run_entries
        del: record_layers.simps)
     (simp_all add: initial_state_def entries_def)

lemma stub_infer_entries:
  "entries (deref (snd (infer (MixtralRunner (stub_mixtral_runner q)) (Some stub_ids) (Some stub_mask) []
       (initial_state c))) ClassAttr) ''layer_0.router'' = [[[0, 1], [2, 0]]]"
  "entries (deref (snd (infer (MixtralRunner (stub_mixtral_runner q)) (Some stub_ids) (Some stub_mask) []
       (initial_state c))) ClassAttr) ''layer_1.router'' = [[[0, 1], [2, 0]]]"
  by (simp_all add: MixtralRunner_call_cls [OF stub_forward_outcome] stub_k stub_run_entries
        del: record_layers.simps)
     (simp_all add: initial_state_def entries_def)

text \<open>
  Claim C7 on the synthetic model: the tensor appended under the key of layer 0 has two
  distinct experts below 4 for each of the two tokens.
\<close>

theorem infer_mixtral_selects_k_experts_in_range_witness:
  "entries (deref (snd (infer (MixtralRunner (stub_mixtral_runner True)) (Some stub_ids)
          (Some stub_mask) [] (initial_state False))) ClassAttr) ''layer_0.router''
     = [[[0, 1], [2, 0]]] \<and>
   well_shaped 2 4 [[0, 1], [2, 0]]"
proof -
  from infer_mixtral_selects_k_experts_in_range
         [OF stub_forward_outcome [of True False] stub_scores_rect, where key = "''layer_0.router''"]
  obtain added where
    a: "entries (deref (snd (infer (MixtralRunner (stub_mixtral_runner True)) (Some stub_ids)
          (Some stub_mask) [] (initial_state False))) ClassAttr) ''layer_0.router''
        = entries (deref (initial_state False) ClassAttr) ''layer_0.router'' @ added"
    and w: "list_all (well_shaped (num_experts_per_tok (mr_model (stub_mixtral_runner True))) 4) added"
    by blast
  have e0: "entries (deref (initial_state False) ClassAttr) ''layer_0.router'' = []"
    by (simp add: initial_state_def entries_def)
  from a have "added = [[[0, 1], [2, 0]]]"
    unfolding stub_infer_entries e0 by simp
  with w show ?thesis
    unfolding stub_infer_entries stub_k by simp
qed

lemma forward_outcome_cuda:
  "cuda_available s' = cuda_available s \<Longrightarrow>
   forward_outcome self ids am kw s' = forward_outcome self ids am kw s"
  by (simp add: forward_outcome_def to_device_def)

lemma MixtralRunner_call_cuda:
  "cuda_available (snd (MixtralRunner_call self ids am kw s)) = cuda_available s"
  by (auto simp: MixtralRunner_call_def log_event_def Let_def
      split: sum.splits prod.splits option.splits)

lemma stub_forward_outcome_after:
  "forward_outcome (stub_mixtral_runner q) (Some stub_ids) (Some stub_mask) []
     (snd (infer (MixtralRunner (stub_mixtral_runner q')) (Some stub_ids) (Some stub_mask) []
            (initial_state c)))
     = Inr [stub_scores, stub_scores]"
proof -
  have "forward_outcome (stub_mixtral_runner q) (Some stub_ids) (Some stub_mask) []
     (snd (infer (MixtralRunner (stub_mixtral_runner q')) (Some stub_ids) (Some stub_mask) []
            (initial_state c)))
     = forward_outcome (stub_mixtral_runner q) (Some stub_ids) (Some stub_mask) [] (initial_state c)"
    by (rule forward_outcome_cuda) (simp add: MixtralRunner_call_cuda)
  then show ?thesis by (simp add: stub_forward_outcome)
qed

subsection \<open>The observers of an OpenMoE runner\<close>

lemma acc_at_upd: "acc_at (accs(a \<mapsto> d)) b = (if b = a then d else acc_at accs b)"
  by (simp add: acc_at_def)

lemma run_hooks_absent:
  "p \<notin> set qs \<Longrightarrow> run_hooks (map (\<lambda>q. (q, a)) qs) p d accs = accs"
  by (induction qs arbitrary: accs) auto

lemma run_hooks_present:
  "distinct qs \<Longrightarrow> p \<in> set qs \<Longrightarrow>
   run_hooks (map (\<lambda>q. (q, a)) qs) p d accs = accs(a \<mapsto> dd_append (acc_at accs a) p d)"
proof (induction qs arbitrary: accs)
  case Nil
  then show ?case by simp
next
  case (Cons q qs)
  show ?case
  proof (cases "q = p")
    case True
    with Cons.prems have "p \<notin> set qs" by simp
    with True show ?thesis by (simp add: run_hooks_absent)
  next
    case False
    with Cons show ?thesis by simp
  qed
qed

lemma openmoe_forward_attached:
  assumes "oe_hooks m = map (\<lambda>q. (q, a)) rs" "distinct rs"
  shows "set ps \<subseteq> set rs \<Longrightarrow> distinct ps \<Longrightarrow>
     entries (acc_at (openmoe_forward m ps x am kw accs) a) key
       = (if key \<in> set ps then entries (acc_at accs a) key @ [oe_route m key x am kw]
          else entries (acc_at accs a) key)"
proof (induction ps arbitrary: accs)
  case Nil
  then show ?case by simp
next
  case (Cons p ps)
  from Cons.prems have p: "p \<in> set rs" and ps: "set ps \<subseteq> set rs"
    and np: "p \<notin> set ps" and dps: "distinct ps" by auto
  let ?accs1 = "accs(a \<mapsto> dd_append (acc_at accs a) p (oe_route m p x am kw))"
  have step: "openmoe_forward m (p # ps) x am kw accs = openmoe_forward m ps x am kw ?accs1"
    using run_hooks_present [OF assms(2) p] assms(1) by simp
  have a1: "acc_at ?accs1 a = dd_append (acc_at accs a) p (oe_route m p x am kw)"
    by (simp add: acc_at_def)
  have ih: "entries (acc_at (openmoe_forward m ps x am kw ?accs1) a) key
       = (if key \<in> set ps then entries (acc_at ?accs1 a) key @ [oe_route m key x am kw]
          else entries (acc_at ?accs1 a) key)"
    by (rule Cons.IH [OF ps dps])
  show ?case
    unfolding step ih a1 using np by (auto simp: entries_dd_append)
qed

lemma openmoe_forward_dom:
  assumes "oe_hooks m = map (\<lambda>q. (q, a)) rs" "distinct rs"
  shows "set ps \<subseteq> set rs \<Longrightarrow> ps \<noteq> [] \<Longrightarrow>
     dom (acc_at (openmoe_forward m ps x am kw accs) a) = dom (acc_at accs a) \<union> set ps"
proof (induction ps arbitrary: accs)
  case Nil
  then show ?case by simp
next
  case (Cons p ps)
  from Cons.prems have p: "p \<in> set rs" and ps: "set ps \<subseteq> set rs" by auto
  let ?accs1 = "accs(a \<mapsto> dd_append (acc_at accs a) p (oe_route m p x am kw))"
  have step: "openmoe_forward m (p # ps) x am kw accs = openmoe_forward m ps x am kw ?accs1"
    using run_hooks_present [OF assms(2) p] assms(1) by simp
  have a1: "acc_at ?accs1 a = dd_append (acc_at accs a) p (oe_route m p x am kw)"
    by (simp add: acc_at_def)
  show ?case
  proof (cases "ps = []")
    case True
    have "openmoe_forward m [] x am kw ?accs1 = ?accs1" by simp
    with True show ?thesis unfolding step by (simp only: a1 dom_dd_append) auto
  next
    case False
    have ih: "dom (acc_at (openmoe_forward m ps x am kw ?accs1) a) = dom (acc_at ?accs1 a) \<union> set ps"
      by (rule Cons.IH [OF ps False])
    show ?thesis
      unfolding step ih a1 dom_dd_append by auto
  qed
qed

lemma openmoe_forward_empty: "openmoe_forward m [] x am kw accs = accs"
  by simp

lemma to_device_grad: "to_device (s\<lparr>grad_enabled := g\<rparr>) ids am = to_device s ids am"
  by (simp add: to_device_def)

lemma OpenMoERunner_call_returns:
  assumes "to_device s input_ids attention_mask = Inr (x, m)"
  shows "OpenMoERunner_call self input_ids attention_mask kwargs s =
           (Inr (Accumulator (omr_activated_experts self)),
            s\<lparr>trace := trace s @ [ForwardPass (omr_model_name self) False],
              accumulators := openmoe_forward (omr_model self) (oe_routers (omr_model self))
                                x m kwargs (accumulators s)\<rparr>)"
  using assms
  by (simp add: OpenMoERunner_call_def to_device_grad log_event_def Let_def)

lemma OpenMoERunner_call_raised:
  assumes "to_device s input_ids attention_mask = Inl e"
  shows "OpenMoERunner_call self input_ids attention_mask kwargs s = (Inl e, s)"
  using assms
  by (simp add: OpenMoERunner_call_def to_device_grad log_event_def Let_def)

subsection \<open>One entry per layer and call\<close>

lemma attached_call:
  assumes "attached self" "to_device s input_ids attention_mask = Inr (x, m)"
  shows "OpenMoERunner_call self input_ids attention_mask kwargs s
           = (Inr (Accumulator (omr_activated_experts self)),
              snd (OpenMoERunner_call self input_ids attention_mask kwargs s))"
    and "entries (deref (snd (OpenMoERunner_call self input_ids attention_mask kwargs s))
                    (Accumulator (omr_activated_experts self))) key
           = (if key \<in> set (oe_routers (omr_model self))
              then entries (deref s (Accumulator (omr_activated_experts self))) key
                     @ [oe_route (omr_model self) key x m kwargs]
              else entries (deref s (Accumulator (omr_activated_experts self))) key)"
proof -
  from assms(1) have h: "oe_hooks (omr_model self)
      = map (\<lambda>q. (q, omr_activated_experts self)) (oe_routers (omr_model self))"
    and d: "distinct (oe_routers (omr_model self))"
    by (simp_all add: attached_def)
  show "OpenMoERunner_call self input_ids attention_mask kwargs s
           = (Inr (Accumulator (omr_activated_experts self)),
              snd (OpenMoERunner_call self input_ids attention_mask kwargs s))"
    by (simp add: OpenMoERunner_call_returns [OF assms(2)])
  from openmoe_forward_attached [OF h d subset_refl d]
  show "entries (deref (snd (OpenMoERunner_call self input_ids attention_mask kwargs s))
                    (Accumulator (omr_activated_experts self))) key
           = (if key \<in> set (oe_routers (omr_model self))
              then entries (deref s (Accumulator (omr_activated_experts self))) key
                     @ [oe_route (omr_model self) key x m kwargs]
              else entries (deref s (Accumulator (omr_activated_experts self))) key)"
    by (simp add: OpenMoERunner_call_returns [OF assms(2)])
qed

lemma mixtral_call_entries:
  assumes "forward_outcome self input_ids attention_mask kwargs s = Inr ls"
    and "list_all (\<lambda>t. num_experts_per_tok (mr_model self) \<le> t_ncols t) ls"
  shows "MixtralRunner_call self input_ids attention_mask kwargs s
           = (Inr ClassAttr, snd (MixtralRunner_call self input_ids attention_mask kwargs s))"
    and "i < length ls \<Longrightarrow>
         entries (cls_activated_experts (snd (MixtralRunner_call self input_ids attention_mask kwargs s)))
            (layer_key i)
           = entries (cls_activated_experts s) (layer_key i)
             @ [map (\<lambda>ws. topk_row ws (num_experts_per_tok (mr_model self)))
                  (t_rows (softmax (ls ! i) Float32))]"
    and "key \<notin> layer_key ` {..<length ls} \<Longrightarrow>
         entries (cls_activated_experts (snd (MixtralRunner_call self input_ids attention_mask kwargs s))) key
           = entries (cls_activated_experts s) key"
    and "dom (cls_activated_experts (snd (MixtralRunner_call self input_ids attention_mask kwargs s)))
           = dom (cls_activated_experts s) \<union> layer_key ` {..<length ls}"
proof -
  let ?k = "num_experts_per_tok (mr_model self)"
  have ok: "fst (record_layers 0 ls ?k (cls_activated_experts s)) = None"
    using assms(2) by (simp add: record_layers_ok_iff)
  show "MixtralRunner_call self input_ids attention_mask kwargs s
           = (Inr ClassAttr, snd (MixtralRunner_call self input_ids attention_mask kwargs s))"
    by (simp add: MixtralRunner_call_returns [OF assms])
  show "entries (cls_activated_experts (snd (MixtralRunner_call self input_ids attention_mask kwargs s)))
            (layer_key i)
           = entries (cls_activated_experts s) (layer_key i)
             @ [map (\<lambda>ws. topk_row ws ?k) (t_rows (softmax (ls ! i) Float32))]"
    if "i < length ls"
    using record_layers_hit [OF ok that] by (simp add: MixtralRunner_call_cls [OF assms(1)])
  show "entries (cls_activated_experts (snd (MixtralRunner_call self input_ids attention_mask kwargs s))) key
           = entries (cls_activated_experts s) key"
    if "key \<notin> layer_key ` {..<length ls}"
  proof -
    from that have "\<forall>j<length ls. key \<noteq> layer_key (0 + j)" by auto
    from record_layers_miss [OF this] show ?thesis
      by (simp add: MixtralRunner_call_cls [OF assms(1)])
  qed
  have "{0..<0 + length ls} = {..<length ls}" by auto
  with record_layers_dom_ok [OF ok]
  show "dom (cls_activated_experts (snd (MixtralRunner_call self input_ids attention_mask kwargs s)))
           = dom (cls_activated_experts s) \<union> layer_key ` {..<length ls}"
    by (simp add: MixtralRunner_call_cls [OF assms(1)])
qed

text \<open>
  Claim C2. One call appends exactly one entry to every per-layer sequence, for both
  variants. For a \<^verbatim>\<open>MixtralRunner\<close> whose forward pass returned the scores \<open>ls\<close>, no
  layer having fewer experts than the number of experts per token: the call returns
  the reference to the record, the sequence of every layer \<open>i\<close> below the number of
  layers is one longer than before (a missing key counting as the empty sequence, as
  the \<^verbatim>\<open>defaultdict\<close> reads it), and no other key changes. For an \<^verbatim>\<open>OpenMoERunner\<close> as
  its constructor leaves it, with inputs the device transfer accepts: the call returns
  the reference to the record, the sequence of every router is one longer than
  before, and no other key changes.
\<close>

theorem infer_appends_one_entry_per_layer:
  "(forward_outcome self input_ids attention_mask kwargs s = Inr ls \<and>
    list_all (\<lambda>t. num_experts_per_tok (mr_model self) \<le> t_ncols t) ls \<longrightarrow>
      (\<exists>s'. infer (MixtralRunner self) input_ids attention_mask kwargs s
               = (Inr (activated_experts (MixtralRunner self)), s') \<and>
         (\<forall>i<length ls.
            length (entries (deref s' (activated_experts (MixtralRunner self))) (layer_key i))
              = Suc (length (entries (deref s (activated_experts (MixtralRunner self))) (layer_key i)))) \<and>
         (\<forall>key. key \<notin> layer_key ` {..<length ls} \<longrightarrow>
            entries (deref s' (activated_experts (MixtralRunner self))) key
              = entries (deref s (activated_experts (MixtralRunner self))) key))) \<and>
   (attached oself \<and> to_device s input_ids attention_mask = Inr (x, m) \<longrightarrow>
      (\<exists>s'. infer (OpenMoERunner oself) input_ids attention_mask kwargs s
               = (Inr (activated_experts (OpenMoERunner oself)), s') \<and>
         (\<forall>p\<in>set (oe_routers (omr_model oself)).
            length (entries (deref s' (activated_experts (OpenMoERunner oself))) p)
              = Suc (length (entries (deref s (activated_experts (OpenMoERunner oself))) p))) \<and>
         (\<forall>key. key \<notin> set (oe_routers (omr_model oself)) \<longrightarrow>
            entries (deref s' (activated_experts (OpenMoERunner oself))) key
              = entries (deref s (activated_experts (OpenMoERunner oself))) key)))"
proof (intro conjI impI)
  assume a: "forward_outcome self input_ids attention_mask kwargs s = Inr ls \<and>
    list_all (\<lambda>t. num_experts_per_tok (mr_model self) \<le> t_ncols t) ls"
  then have fo: "forward_outcome self input_ids attention_mask kwargs s = Inr ls"
    and wide: "list_all (\<lambda>t. num_experts_per_tok (mr_model self) \<le> t_ncols t) ls" by simp_all
  let ?s' = "snd (MixtralRunner_call self input_ids attention_mask kwargs s)"
  have "infer (MixtralRunner self) input_ids attention_mask kwargs s
          = (Inr (activated_experts (MixtralRunner self)), ?s')"
    using mixtral_call_entries(1) [OF fo wide] by simp
  moreover have "\<forall>i<length ls.
            length (entries (deref ?s' (activated_experts (MixtralRunner self))) (layer_key i))
              = Suc (length (entries (deref s (activated_experts (MixtralRunner self))) (layer_key i)))"
    using mixtral_call_entries(2) [OF fo wide] by simp
  moreover have "\<forall>key. key \<notin> layer_key ` {..<length ls} \<longrightarrow>
            entries (deref ?s' (activated_experts (MixtralRunner self))) key
              = entries (deref s (activated_experts (MixtralRunner self))) key"
    using mixtral_call_entries(3) [OF fo wide] by simp
  ultimately show "\<exists>s'. infer (MixtralRunner self) input_ids attention_mask kwargs s
               = (Inr (activated_experts (MixtralRunner self)), s') \<and>
         (\<forall>i<length ls.
            length (entries (deref s' (activated_experts (MixtralRunner self))) (layer_key i))
              = Suc (length (entries (deref s (activated_experts (MixtralRunner self))) (layer_key i)))) \<and>
         (\<forall>key. key \<notin> layer_key ` {..<length ls} \<longrightarrow>
            entries (deref s' (activated_experts (MixtralRunner self))) key
              = entries (deref s (activated_experts (MixtralRunner self))) key)"
    by blast
next
  assume a: "attached oself \<and> to_device s input_ids attention_mask = Inr (x, m)"
  then have att: "attached oself" and dev: "to_device s input_ids attention_mask = Inr (x, m)"
    by simp_all
  let ?s' = "snd (OpenMoERunner_call oself input_ids attention_mask kwargs s)"
  have "infer (OpenMoERunner oself) input_ids attention_mask kwargs s
          = (Inr (activated_experts (OpenMoERunner oself)), ?s')"
    using attached_call(1) [OF att dev] by simp
  moreover have "\<forall>p\<in>set (oe_routers (omr_model oself)).
            length (entries (deref ?s' (activated_experts (OpenMoERunner oself))) p)
              = Suc (length (entries (deref s (activated_experts (OpenMoERunner oself))) p))"
    using attached_call(2) [OF att dev] by simp
  moreover have "\<forall>key. key \<notin> set (oe_routers (omr_model oself)) \<longrightarrow>
            entries (deref ?s' (activated_experts (OpenMoERunner oself))) key
              = entries (deref s (activated_experts (OpenMoERunner oself))) key"
    using attached_call(2) [OF att dev] by simp
  ultimately show "\<exists>s'. infer (OpenMoERunner oself) input_ids attention_mask kwargs s
               = (Inr (activated_experts (OpenMoERunner oself)), s') \<and>
         (\<forall>p\<in>set (oe_routers (omr_model oself)).
            length (entries (deref s' (activated_experts (OpenMoERunner oself))) p)
              = Suc (length (entries (deref s (activated_experts (OpenMoERunner oself))) p))) \<and>
         (\<forall>key. key \<notin> set (oe_routers (omr_model oself)) \<longrightarrow>
            entries (deref s' (activated_experts (OpenMoERunner oself))) key
              = entries (deref s (activated_experts (OpenMoERunner oself))) key)"
    by blast
qed

lemma from_name_stub_mixtral:
  "from_name stub_providers ''mixtral'' 128 [] s
     = (Inr (MixtralRunner (stub_mixtral_runner True)),
        s\<lparr>trace := trace s @ [LoadTokenizer ''TheBloke/mixtral-8x7b-v0.1-AWQ'' 128,
                               SetPadToken (Some ''</s>''),
                               LoadModel ''TheBloke/mixtral-8x7b-v0.1-AWQ'']\<rparr>)"
  "from_name stub_providers ''mixtral'' 128 [(''use_quant'', PyBool False)] s
     = (Inr (MixtralRunner (stub_mixtral_runner False)),
        s\<lparr>trace := trace s @ [LoadTokenizer ''mistralai/Mixtral-8x7B-v0.1'' 128,
                               SetPadToken (Some ''</s>''),
                               LoadModel ''mistralai/Mixtral-8x7B-v0.1'']\<rparr>)"
  by (simp_all add: from_name_def MixtralRunner_init_def stub_providers_def stub_mixtral_runner_def
      log_event_def Let_def)

lemma from_name_stub_openmoe:
  "from_name stub_providers ''openmoe'' 128 [] (initial_state c)
     = (Inr (OpenMoERunner stub_openmoe_runner),
        (initial_state c)
          \<lparr>trace := [LoadTokenizer ''google/umt5-small'' 128,
                     LoadConfig ''OrionZheng/openmoe-8b-1T'',
                     LoadModel ''OrionZheng/openmoe-8b-1T''],
           accumulators := [0 \<mapsto> [''blocks.0.router'' \<mapsto> [], ''blocks.1.router'' \<mapsto> []]],
           next_addr := 1\<rparr>)"
  by (simp add: from_name_def OpenMoERunner_init_def stub_providers_def stub_openmoe_runner_def
      stub_openmoe_def set_router_hook_def set_openmoe_args_def initial_state_def
      log_event_def Let_def fun_upd_twist)

lemma stub_attached: "attached stub_openmoe_runner"
  by (simp add: attached_def stub_openmoe_runner_def)

lemma stub_to_device:
  "to_device (initial_state False) (Some stub_ids) (Some stub_mask) = Inr (Some stub_ids, Some stub_mask)"
  by (simp add: to_device_def initial_state_def)

lemma stub_after_openmoe:
  "cuda_available (snd (from_name stub_providers ''openmoe'' 128 [] (initial_state False))) = False"
  "cls_activated_experts (snd (from_name stub_providers ''openmoe'' 128 [] (initial_state False)))
     = Map.empty"
  "accumulators (snd (from_name stub_providers ''openmoe'' 128 [] (initial_state False)))
     = [0 \<mapsto> [''blocks.0.router'' \<mapsto> [], ''blocks.1.router'' \<mapsto> []]]"
  by (simp_all add: from_name_stub_openmoe) (simp_all add: initial_state_def)

text \<open>
  Claim C2 on the synthetic models, in the state the construction of the OpenMoE
  runner leaves: after one call each runner holds one entry for its second layer.
\<close>

theorem infer_appends_one_entry_per_layer_witness:
  "length (entries (deref (snd (infer (MixtralRunner (stub_mixtral_runner True)) (Some stub_ids)
                      (Some stub_mask) []
                      (snd (from_name stub_providers ''openmoe'' 128 [] (initial_state False)))))
              ClassAttr) ''layer_1.router'') = 1 \<and>
   length (entries (deref (snd (infer (OpenMoERunner stub_openmoe_runner) (Some stub_ids)
                      (Some stub_mask) []
                      (snd (from_name stub_providers ''openmoe'' 128 [] (initial_state False)))))
              (Accumulator 0)) ''blocks.1.router'') = 1"
proof -
  let ?S = "snd (from_name stub_providers ''openmoe'' 128 [] (initial_state False))"
  have fo: "forward_outcome (stub_mixtral_runner True) (Some stub_ids) (Some stub_mask) [] ?S
              = Inr [stub_scores, stub_scores]"
  proof -
    have c: "cuda_available ?S = cuda_available (initial_state False)"
      unfolding stub_after_openmoe(1) by (simp add: initial_state_def)
    show ?thesis
      unfolding forward_outcome_cuda [OF c] by (rule stub_forward_outcome)
  qed
  have dev: "to_device ?S (Some stub_ids) (Some stub_mask) = Inr (Some stub_ids, Some stub_mask)"
    by (simp add: to_device_def stub_after_openmoe(1))
  note inst = infer_appends_one_entry_per_layer
      [where self = "stub_mixtral_runner True" and input_ids = "Some stub_ids"
         and attention_mask = "Some stub_mask" and kwargs = "[]" and s = ?S
         and ls = "[stub_scores, stub_scores]" and oself = stub_openmoe_runner
         and x = "Some stub_ids" and m = "Some stub_mask"]
  from inst fo stub_scores_wide [of True] obtain s1 where
    r1: "infer (MixtralRunner (stub_mixtral_runner True)) (Some stub_ids) (Some stub_mask) [] ?S
           = (Inr (activated_experts (MixtralRunner (stub_mixtral_runner True))), s1)"
    and l1: "\<forall>i<length [stub_scores, stub_scores].
            length (entries (deref s1 (activated_experts (MixtralRunner (stub_mixtral_runner True))))
                      (layer_key i))
              = Suc (length (entries (deref ?S (activated_experts (MixtralRunner (stub_mixtral_runner True))))
                      (layer_key i)))"
    by blast
  from inst stub_attached dev obtain s2 where
    r2: "infer (OpenMoERunner stub_openmoe_runner) (Some stub_ids) (Some stub_mask) [] ?S
           = (Inr (activated_experts (OpenMoERunner stub_openmoe_runner)), s2)"
    and l2: "\<forall>p\<in>set (oe_routers (omr_model stub_openmoe_runner)).
            length (entries (deref s2 (activated_experts (OpenMoERunner stub_openmoe_runner))) p)
              = Suc (length (entries (deref ?S (activated_experts (OpenMoERunner stub_openmoe_runner))) p))"
    by blast
  from l1 have "length (entries (deref s1 ClassAttr) (layer_key 1))
      = Suc (length (entries (deref ?S ClassAttr) (layer_key 1)))"
    by simp
  then have a: "length (entries (deref s1 ClassAttr) ''layer_1.router'') = 1"
    by (simp add: layer_key_numerals stub_after_openmoe(2) entries_def)
  have "''blocks.1.router'' \<in> set (oe_routers (omr_model stub_openmoe_runner))"
    by (simp add: stub_openmoe_runner_def)
  with l2 have "length (entries (deref s2 (activated_experts (OpenMoERunner stub_openmoe_runner)))
                   ''blocks.1.router'')
      = Suc (length (entries (deref ?S (activated_experts (OpenMoERunner stub_openmoe_runner)))
                   ''blocks.1.router''))"
    by blast
  then have b: "length (entries (deref s2 (Accumulator 0)) ''blocks.1.router'') = 1"
    by (simp add: stub_openmoe_runner_def stub_after_openmoe(3) acc_at_def entries_def)
  from r1 r2 a b show ?thesis by simp
qed

subsection \<open>Construction\<close>

lemma OpenMoERunner_init_Inr:
  assumes "OpenMoERunner_init P seq_len kwargs s = (Inr r, s')"
  shows "\<exists>self. r = OpenMoERunner self \<and>
           activated_experts r = Accumulator (next_addr s) \<and>
           set (map (\<lambda>p. (p, next_addr s)) (oe_routers (omr_model self)))
             \<subseteq> set (oe_hooks (omr_model self))"
  using assms
  by (auto simp: OpenMoERunner_init_def set_router_hook_def log_event_def Let_def
      split: sum.splits)

lemma OpenMoERunner_init_returns:
  assumes "tokenizer_from_pretrained P ''google/umt5-small'' seq_len = Inr tok"
    and "config_from_pretrained P ''OrionZheng/openmoe-8b-1T'' = Inr c"
    and "openmoe_from_pretrained P ''OrionZheng/openmoe-8b-1T''
           (set_openmoe_args c (num_experts c) (moe_layer_interval c) False) = Inr mdl"
  shows "\<exists>self s'. OpenMoERunner_init P seq_len kwargs s = (Inr (OpenMoERunner self), s')"
  using assms
  by (simp add: OpenMoERunner_init_def set_router_hook_def Let_def)

lemma MixtralRunner_init_Inr:
  assumes "MixtralRunner_init P seq_len kwargs s = (Inr r, s')"
  shows "\<exists>self. r = MixtralRunner self \<and> activated_experts r = ClassAttr"
  using assms unfolding MixtralRunner_init_def Let_def
  by (auto split: sum.splits)

lemma MixtralRunner_init_trace:
  assumes "name = (if (case map_of kwargs ''use_quant'' of None \<Rightarrow> True | Some v \<Rightarrow> truthy v)
                   then ''TheBloke/mixtral-8x7b-v0.1-AWQ'' else ''mistralai/Mixtral-8x7B-v0.1'')"
    and "tokenizer_from_pretrained P name seq_len = Inr tok"
  shows "snd (MixtralRunner_init P seq_len kwargs s)
           = s\<lparr>trace := trace s @ [LoadTokenizer name seq_len, SetPadToken (eos_token tok),
                                    LoadModel name]\<rparr>"
    and "fst (MixtralRunner_init P seq_len kwargs s)
           = (case mixtral_from_pretrained P name of
                Inl e \<Rightarrow> Inl e
              | Inr model \<Rightarrow>
                  Inr (MixtralRunner \<lparr>mr_model_name = name,
                         mr_tokenizer = tok\<lparr>pad_token := eos_token tok\<rparr>, mr_model = model\<rparr>))"
proof -
  have nm: "(if truthy (case map_of kwargs ''use_quant'' of None \<Rightarrow> PyBool True | Some v \<Rightarrow> v)
             then ''TheBloke/mixtral-8x7b-v0.1-AWQ'' else ''mistralai/Mixtral-8x7B-v0.1'') = name"
    unfolding assms(1) by (cases "map_of kwargs ''use_quant''") simp_all
  have unfolded: "MixtralRunner_init P seq_len kwargs s
      = (case mixtral_from_pretrained P name of
           Inl e \<Rightarrow> (Inl e, log_event (LoadModel name) (log_event (SetPadToken (eos_token tok))
                                (log_event (LoadTokenizer name seq_len) s)))
         | Inr model \<Rightarrow>
             (Inr (MixtralRunner \<lparr>mr_model_name = name,
                     mr_tokenizer = tok\<lparr>pad_token := eos_token tok\<rparr>, mr_model = model\<rparr>),
              log_event (LoadModel name) (log_event (SetPadToken (eos_token tok))
                                (log_event (LoadTokenizer name seq_len) s))))"
    unfolding MixtralRunner_init_def Let_def nm by (simp add: assms(2))
  show "snd (MixtralRunner_init P seq_len kwargs s)
           = s\<lparr>trace := trace s @ [LoadTokenizer name seq_len, SetPadToken (eos_token tok),
                                    LoadModel name]\<rparr>"
    unfolding unfolded by (cases "mixtral_from_pretrained P name") (simp_all add: log_event_def)
  show "fst (MixtralRunner_init P seq_len kwargs s)
           = (case mixtral_from_pretrained P name of
                Inl e \<Rightarrow> Inl e
              | Inr model \<Rightarrow>
                  Inr (MixtralRunner \<lparr>mr_model_name = name,
                         mr_tokenizer = tok\<lparr>pad_token := eos_token tok\<rparr>, mr_model = model\<rparr>))"
    unfolding unfolded by (cases "mixtral_from_pretrained P name") simp_all
qed

text \<open>
  Claim C3. Whatever \<^verbatim>\<open>from_name\<close> returns for the name \<^verbatim>\<open>openmoe\<close> is an
  \<^verbatim>\<open>OpenMoERunner\<close>: its call is the observer-based one, its record is the accumulator
  allocated at attachment, and every router of its model carries an observer of that
  accumulator; and it does return one when the providers deliver. Whatever it returns
  for \<^verbatim>\<open>mixtral\<close> is a \<^verbatim>\<open>MixtralRunner\<close>, whose call derives the selection from the
  output; and it does return one when the providers deliver. For every other name it
  raises \<^verbatim>\<open>NotImplementedError\<close> (the unsupported-architecture error of the spec) and
  leaves the state as it was: no provider is called, nothing is allocated, and no
  runner is returned.
\<close>

theorem from_name_dispatch:
  "(\<forall>r s'. from_name P ''openmoe'' seq_len kwargs s = (Inr r, s') \<longrightarrow>
      (\<exists>self. r = OpenMoERunner self \<and> infer r = OpenMoERunner_call self \<and>
         activated_experts r = Accumulator (next_addr s) \<and>
         set (map (\<lambda>p. (p, next_addr s)) (oe_routers (omr_model self)))
           \<subseteq> set (oe_hooks (omr_model self)))) \<and>
   (tokenizer_from_pretrained P ''google/umt5-small'' seq_len = Inr tok \<and>
    config_from_pretrained P ''OrionZheng/openmoe-8b-1T'' = Inr c \<and>
    openmoe_from_pretrained P ''OrionZheng/openmoe-8b-1T''
      (set_openmoe_args c (num_experts c) (moe_layer_interval c) False) = Inr mdl \<longrightarrow>
      (\<exists>self s'. from_name P ''openmoe'' seq_len kwargs s = (Inr (OpenMoERunner self), s'))) \<and>
   (\<forall>r s'. from_name P ''mixtral'' seq_len kwargs s = (Inr r, s') \<longrightarrow>
      (\<exists>self. r = MixtralRunner self \<and> infer r = MixtralRunner_call self \<and>
         activated_experts r = ClassAttr)) \<and>
   (tokenizer_from_pretrained P
      (if (case map_of kwargs ''use_quant'' of None \<Rightarrow> True | Some v \<Rightarrow> truthy v)
       then ''TheBloke/mixtral-8x7b-v0.1-AWQ'' else ''mistralai/Mixtral-8x7B-v0.1'') seq_len = Inr tok' \<and>
    mixtral_from_pretrained P
      (if (case map_of kwargs ''use_quant'' of None \<Rightarrow> True | Some v \<Rightarrow> truthy v)
       then ''TheBloke/mixtral-8x7b-v0.1-AWQ'' else ''mistralai/Mixtral-8x7B-v0.1'') = Inr mdl' \<longrightarrow>
      (\<exists>self s'. from_name P ''mixtral'' seq_len kwargs s = (Inr (MixtralRunner self), s'))) \<and>
   (name \<noteq> ''openmoe'' \<and> name \<noteq> ''mixtral'' \<longrightarrow>
      from_name P name seq_len kwargs s = (Inl NotImplementedError, s))"
proof (intro conjI impI allI)
  fix r s'
  assume "from_name P ''openmoe'' seq_len kwargs s = (Inr r, s')"
  then have "OpenMoERunner_init P seq_len kwargs s = (Inr r, s')"
    by (simp add: from_name_def)
  from OpenMoERunner_init_Inr [OF this]
  show "\<exists>self. r = OpenMoERunner self \<and> infer r = OpenMoERunner_call self \<and>
         activated_experts r = Accumulator (next_addr s) \<and>
         set (map (\<lambda>p. (p, next_addr s)) (oe_routers (omr_model self)))
           \<subseteq> set (oe_hooks (omr_model self))"
    by auto
next
  assume "tokenizer_from_pretrained P ''google/umt5-small'' seq_len = Inr tok \<and>
    config_from_pretrained P ''OrionZheng/openmoe-8b-1T'' = Inr c \<and>
    openmoe_from_pretrained P ''OrionZheng/openmoe-8b-1T''
      (set_openmoe_args c (num_experts c) (moe_layer_interval c) False) = Inr mdl"
  then show "\<exists>self s'. from_name P ''openmoe'' seq_len kwargs s = (Inr (OpenMoERunner self), s')"
    using OpenMoERunner_init_returns [of P seq_len tok c mdl kwargs s]
    by (simp add: from_name_def)
next
  fix r s'
  assume "from_name P ''mixtral'' seq_len kwargs s = (Inr r, s')"
  then have "MixtralRunner_init P seq_len kwargs s = (Inr r, s')"
    by (simp add: from_name_def)
  from MixtralRunner_init_Inr [OF this]
  show "\<exists>self. r = MixtralRunner self \<and> infer r = MixtralRunner_call self \<and>
         activated_experts r = ClassAttr"
    by auto
next
  let ?name = "if (case map_of kwargs ''use_quant'' of None \<Rightarrow> True | Some v \<Rightarrow> truthy v)
       then ''TheBloke/mixtral-8x7b-v0.1-AWQ'' else ''mistralai/Mixtral-8x7B-v0.1''"
  assume a: "tokenizer_from_pretrained P ?name seq_len = Inr tok' \<and>
    mixtral_from_pretrained P ?name = Inr mdl'"
  then have t: "tokenizer_from_pretrained P ?name seq_len = Inr tok'"
    and m: "mixtral_from_pretrained P ?name = Inr mdl'" by blast+
  from MixtralRunner_init_trace(2) [OF refl t, of s] m
  have "fst (MixtralRunner_init P seq_len kwargs s)
          = Inr (MixtralRunner \<lparr>mr_model_name = ?name,
                   mr_tokenizer = tok'\<lparr>pad_token := eos_token tok'\<rparr>, mr_model = mdl'\<rparr>)"
    by simp
  then have "MixtralRunner_init P seq_len kwargs s
          = (Inr (MixtralRunner \<lparr>mr_model_name = ?name,
                   mr_tokenizer = tok'\<lparr>pad_token := eos_token tok'\<rparr>, mr_model = mdl'\<rparr>),
             snd (MixtralRunner_init P seq_len kwargs s))"
    by (metis prod.collapse)
  moreover have "from_name P ''mixtral'' seq_len kwargs s = MixtralRunner_init P seq_len kwargs s"
    by (simp add: from_name_def)
  ultimately have "from_name P ''mixtral'' seq_len kwargs s
          = (Inr (MixtralRunner \<lparr>mr_model_name = ?name,
                   mr_tokenizer = tok'\<lparr>pad_token := eos_token tok'\<rparr>, mr_model = mdl'\<rparr>),
             snd (MixtralRunner_init P seq_len kwargs s))"
    by (rule ssubst [rotated])
  then show "\<exists>self s'. from_name P ''mixtral'' seq_len kwargs s = (Inr (MixtralRunner self), s')"
    by blast
next
  assume "name \<noteq> ''openmoe'' \<and> name \<noteq> ''mixtral''"
  then show "from_name P name seq_len kwargs s = (Inl NotImplementedError, s)"
    by (simp add: from_name_def)
qed

lemma stub_providers_simps:
  "tokenizer_from_pretrained stub_providers name n
     = Inr \<lparr>tok_name = name, model_max_length = n, pad_token = None, eos_token = Some ''</s>''\<rparr>"
  "config_from_pretrained stub_providers name
     = Inr \<lparr>num_experts = 4, moe_layer_interval = 1, enable_kernel = True\<rparr>"
  "openmoe_from_pretrained stub_providers name c = Inr (stub_openmoe c)"
  "mixtral_from_pretrained stub_providers name = Inr stub_mixtral"
  by (simp_all add: stub_providers_def)

text \<open>
  Claim C3 with the synthetic providers: an unknown name fails and leaves the initial
  state unchanged, and the two known names return a runner of their class.
\<close>

theorem from_name_dispatch_witness:
  "from_name stub_providers ''gpt2'' 128 [] (initial_state False)
     = (Inl NotImplementedError, initial_state False) \<and>
   (\<exists>self s'. from_name stub_providers ''openmoe'' 128 [] (initial_state False)
        = (Inr (OpenMoERunner self), s')) \<and>
   (\<exists>self s'. from_name stub_providers ''mixtral'' 128 [] (initial_state False)
        = (Inr (MixtralRunner self), s'))"
proof -
  note inst = from_name_dispatch
      [where P = stub_providers and seq_len = 128 and kwargs = "[]" and s = "initial_state False"
         and name = "''gpt2''"
         and tok = "\<lparr>tok_name = ''google/umt5-small'', model_max_length = 128, pad_token = None,
                      eos_token = Some ''</s>''\<rparr>"
         and c = "\<lparr>num_experts = 4, moe_layer_interval = 1, enable_kernel = True\<rparr>"
         and mdl = "stub_openmoe (set_openmoe_args
                        \<lparr>num_experts = 4, moe_layer_interval = 1, enable_kernel = True\<rparr> 4 1 False)"
         and tok' = "\<lparr>tok_name = ''TheBloke/mixtral-8x7b-v0.1-AWQ'', model_max_length = 128,
                       pad_token = None, eos_token = Some ''</s>''\<rparr>"
         and mdl' = stub_mixtral]
  have n: "''gpt2'' \<noteq> ''openmoe'' \<and> ''gpt2'' \<noteq> ''mixtral''" by simp
  from inst n have a: "from_name stub_providers ''gpt2'' 128 [] (initial_state False)
     = (Inl NotImplementedError, initial_state False)"
    by blast
  from inst have b: "\<exists>self s'. from_name stub_providers ''openmoe'' 128 [] (initial_state False)
        = (Inr (OpenMoERunner self), s')"
    by (simp add: stub_providers_simps)
  from inst have c: "\<exists>self s'. from_name stub_providers ''mixtral'' 128 [] (initial_state False)
        = (Inr (MixtralRunner self), s')"
    by (simp add: stub_providers_simps)
  from a b c show ?thesis by blast
qed

text \<open>
  Claim C10. \<^verbatim>\<open>MixtralRunner.__init__\<close> loads from one of two sources: the quantized
  weights when \<^verbatim>\<open>use_quant\<close> is truthy, which it is when the caller does not pass it,
  and the full-precision weights otherwise. When the tokenizer of that source loads,
  the effects of the constructor are, in this order: loading the tokenizer, writing
  its end-of-sequence token to its pad token, loading the model; and when the model
  loads, the runner holds that source's name, the tokenizer with the pad token equal
  to the end-of-sequence token, and the model.
\<close>

theorem MixtralRunner_init_weights_and_pad_token:
  assumes "name = (if (case map_of kwargs ''use_quant'' of None \<Rightarrow> True | Some v \<Rightarrow> truthy v)
                   then ''TheBloke/mixtral-8x7b-v0.1-AWQ'' else ''mistralai/Mixtral-8x7B-v0.1'')"
    and "tokenizer_from_pretrained P name seq_len = Inr tok"
  shows "(map_of kwargs ''use_quant'' = None \<longrightarrow> name = ''TheBloke/mixtral-8x7b-v0.1-AWQ'') \<and>
         (name = ''TheBloke/mixtral-8x7b-v0.1-AWQ'' \<or> name = ''mistralai/Mixtral-8x7B-v0.1'') \<and>
         trace (snd (MixtralRunner_init P seq_len kwargs s))
           = trace s @ [LoadTokenizer name seq_len, SetPadToken (eos_token tok), LoadModel name] \<and>
         (\<forall>model. mixtral_from_pretrained P name = Inr model \<longrightarrow>
            fst (MixtralRunner_init P seq_len kwargs s)
              = Inr (MixtralRunner \<lparr>mr_model_name = name,
                       mr_tokenizer = tok\<lparr>pad_token := eos_token tok\<rparr>, mr_model = model\<rparr>))"
proof (intro conjI impI allI)
  assume "map_of kwargs ''use_quant'' = None"
  with assms(1) show "name = ''TheBloke/mixtral-8x7b-v0.1-AWQ''" by simp
next
  from assms(1) show "name = ''TheBloke/mixtral-8x7b-v0.1-AWQ'' \<or> name = ''mistralai/Mixtral-8x7B-v0.1''"
    by (simp split: if_splits)
next
  show "trace (snd (MixtralRunner_init P seq_len kwargs s))
           = trace s @ [LoadTokenizer name seq_len, SetPadToken (eos_token tok), LoadModel name]"
    unfolding MixtralRunner_init_trace(1) [OF assms] by simp
next
  fix model
  assume "mixtral_from_pretrained P name = Inr model"
  then show "fst (MixtralRunner_init P seq_len kwargs s)
              = Inr (MixtralRunner \<lparr>mr_model_name = name,
                       mr_tokenizer = tok\<lparr>pad_token := eos_token tok\<rparr>, mr_model = model\<rparr>)"
    unfolding MixtralRunner_init_trace(2) [OF assms] by simp
qed

text \<open>
  Claim C10 with the synthetic providers: the default is the quantized source, the pad
  token is set before the model is loaded, and \<^verbatim>\<open>use_quant=False\<close> selects the
  full-precision source.
\<close>

theorem MixtralRunner_init_weights_and_pad_token_witness:
  "fst (MixtralRunner_init stub_providers 128 [] (initial_state False))
     = Inr (MixtralRunner (stub_mixtral_runner True)) \<and>
   pad_token (mr_tokenizer (stub_mixtral_runner True)) = eos_token (mr_tokenizer (stub_mixtral_runner True)) \<and>
   trace (snd (MixtralRunner_init stub_providers 128 [] (initial_state False)))
     = [LoadTokenizer ''TheBloke/mixtral-8x7b-v0.1-AWQ'' 128, SetPadToken (Some ''</s>''),
        LoadModel ''TheBloke/mixtral-8x7b-v0.1-AWQ''] \<and>
   fst (MixtralRunner_init stub_providers 128 [(''use_quant'', PyBool False)] (initial_state False))
     = Inr (MixtralRunner (stub_mixtral_runner False))"
proof -
  have n1: "''TheBloke/mixtral-8x7b-v0.1-AWQ''
      = (if (case map_of ([] :: kwargs) ''use_quant'' of None \<Rightarrow> True | Some v \<Rightarrow> truthy v)
         then ''TheBloke/mixtral-8x7b-v0.1-AWQ'' else ''mistralai/Mixtral-8x7B-v0.1'')"
    by simp
  have n2: "''mistralai/Mixtral-8x7B-v0.1''
      = (if (case map_of [(''use_quant'', PyBool False)] ''use_quant'' of None \<Rightarrow> True
             | Some v \<Rightarrow> truthy v)
         then ''TheBloke/mixtral-8x7b-v0.1-AWQ'' else ''mistralai/Mixtral-8x7B-v0.1'')"
    by simp
  from MixtralRunner_init_weights_and_pad_token [OF n1 stub_providers_simps(1), of 128 "initial_state False"]
  have a: "fst (MixtralRunner_init stub_providers 128 [] (initial_state False))
     = Inr (MixtralRunner (stub_mixtral_runner True))"
    and t: "trace (snd (MixtralRunner_init stub_providers 128 [] (initial_state False)))
     = [LoadTokenizer ''TheBloke/mixtral-8x7b-v0.1-AWQ'' 128, SetPadToken (Some ''</s>''),
        LoadModel ''TheBloke/mixtral-8x7b-v0.1-AWQ'']"
    by (simp_all add: stub_providers_simps stub_mixtral_runner_def initial_state_def)
  from MixtralRunner_init_weights_and_pad_token [OF n2 stub_providers_simps(1), of 128 "initial_state False"]
  have b: "fst (MixtralRunner_init stub_providers 128 [(''use_quant'', PyBool False)] (initial_state False))
     = Inr (MixtralRunner (stub_mixtral_runner False))"
    by (simp add: stub_providers_simps stub_mixtral_runner_def)
  have p: "pad_token (mr_tokenizer (stub_mixtral_runner True))
      = eos_token (mr_tokenizer (stub_mixtral_runner True))"
    by (simp add: stub_mixtral_runner_def)
  from a p t b show ?thesis by blast
qed

subsection \<open>Sharing of the record, and the gradient mode\<close>

lemma stub_forward_outcome_any:
  "forward_outcome (stub_mixtral_runner q) (Some stub_ids) (Some stub_mask) [] s
     = Inr [stub_scores, stub_scores]"
  by (simp add: forward_outcome_def to_device_def stub_mixtral_runner_def stub_mixtral_def)

lemma stub_call_entries_any:
  "entries (cls_activated_experts (snd (MixtralRunner_call (stub_mixtral_runner q) (Some stub_ids)
       (Some stub_mask) [] s))) ''layer_0.router''
     = entries (cls_activated_experts s) ''layer_0.router'' @ [[[0, 1], [2, 0]]]"
  "entries (cls_activated_experts (snd (MixtralRunner_call (stub_mixtral_runner q) (Some stub_ids)
       (Some stub_mask) [] s))) ''layer_1.router''
     = entries (cls_activated_experts s) ''layer_1.router'' @ [[[0, 1], [2, 0]]]"
  by (simp_all add: MixtralRunner_call_cls [OF stub_forward_outcome_any] stub_k stub_run_entries
        del: record_layers.simps)

lemma stub_call_dom_any:
  "dom (cls_activated_experts (snd (MixtralRunner_call (stub_mixtral_runner q) (Some stub_ids)
       (Some stub_mask) [] s)))
     = dom (cls_activated_experts s) \<union> {''layer_0.router'', ''layer_1.router''}"
proof -
  have "layer_key ` {..<length [stub_scores, stub_scores]} = {''layer_0.router'', ''layer_1.router''}"
  proof -
    have "{..<length [stub_scores, stub_scores]} = {0, 1}" by auto
    then show ?thesis by (simp add: layer_key_numerals)
  qed
  with mixtral_call_entries(4) [OF stub_forward_outcome_any stub_scores_wide, of q s]
  show ?thesis by simp
qed

lemma stub_runners_differ: "stub_mixtral_runner True \<noteq> stub_mixtral_runner False"
proof
  assume "stub_mixtral_runner True = stub_mixtral_runner False"
  then have "mr_model_name (stub_mixtral_runner True) = mr_model_name (stub_mixtral_runner False)"
    by simp
  then show False by (simp add: stub_mixtral_runner_def)
qed

text \<open>
  Claim C5 asks that a call on one runner never changes the record seen through
  another. Two \<^verbatim>\<open>MixtralRunner\<close> instances built one after the other by \<^verbatim>\<open>from_name\<close>,
  the second with \<^verbatim>\<open>use_quant=False\<close>, are different objects, and the record of the
  second has no entry for layer 0; after one call on the first, the record of the
  second holds the entry of that call: both read the dictionary of the class.
\<close>

theorem mixtral_runners_share_one_record:
  "fst (from_name stub_providers ''mixtral'' 128 [] (initial_state False))
     = Inr (MixtralRunner (stub_mixtral_runner True)) \<and>
   fst (from_name stub_providers ''mixtral'' 128 [(''use_quant'', PyBool False)]
          (snd (from_name stub_providers ''mixtral'' 128 [] (initial_state False))))
     = Inr (MixtralRunner (stub_mixtral_runner False)) \<and>
   MixtralRunner (stub_mixtral_runner True) \<noteq> MixtralRunner (stub_mixtral_runner False) \<and>
   entries (deref (snd (from_name stub_providers ''mixtral'' 128 [(''use_quant'', PyBool False)]
                          (snd (from_name stub_providers ''mixtral'' 128 [] (initial_state False)))))
              (activated_experts (MixtralRunner (stub_mixtral_runner False)))) ''layer_0.router''
     = [] \<and>
   entries (deref (snd (infer (MixtralRunner (stub_mixtral_runner True)) (Some stub_ids)
                          (Some stub_mask) []
                          (snd (from_name stub_providers ''mixtral'' 128 [(''use_quant'', PyBool False)]
                                  (snd (from_name stub_providers ''mixtral'' 128 []
                                          (initial_state False)))))))
              (activated_experts (MixtralRunner (stub_mixtral_runner False)))) ''layer_0.router''
     = [[[0, 1], [2, 0]]]"
proof -
  let ?S2 = "snd (from_name stub_providers ''mixtral'' 128 [(''use_quant'', PyBool False)]
                    (snd (from_name stub_providers ''mixtral'' 128 [] (initial_state False))))"
  have c: "cls_activated_experts ?S2 = Map.empty"
    by (simp add: from_name_stub_mixtral) (simp add: initial_state_def)
  have e: "entries (cls_activated_experts ?S2) ''layer_0.router'' = []"
    unfolding c by (simp add: entries_def)
  have a: "entries (cls_activated_experts (snd (MixtralRunner_call (stub_mixtral_runner True)
              (Some stub_ids) (Some stub_mask) [] ?S2))) ''layer_0.router'' = [[[0, 1], [2, 0]]]"
    unfolding stub_call_entries_any e by simp
  from a e stub_runners_differ show ?thesis
    by (simp add: from_name_stub_mixtral)
qed

lemma MixtralRunner_call_trace:
  assumes "forward_outcome self input_ids attention_mask kwargs s = Inr ls"
  shows "trace (snd (MixtralRunner_call self input_ids attention_mask kwargs s))
           = trace s @ [ForwardPass (mr_model_name self) (grad_enabled s)]"
  by (simp add: MixtralRunner_call_scores [OF assms] log_event_def)

lemma OpenMoERunner_call_trace:
  assumes "to_device s input_ids attention_mask = Inr (x, m)"
  shows "trace (snd (OpenMoERunner_call self input_ids attention_mask kwargs s))
           = trace s @ [ForwardPass (omr_model_name self) False]"
    and "grad_enabled (snd (OpenMoERunner_call self input_ids attention_mask kwargs s)) = grad_enabled s"
  by (simp_all add: OpenMoERunner_call_returns [OF assms])

text \<open>
  Claim C9 asks that every call runs its forward pass with gradient tracking disabled.
  From the initial state, where gradient tracking is enabled as torch starts, the
  forward pass of a \<^verbatim>\<open>MixtralRunner\<close> call runs with gradient tracking enabled, while
  that of an \<^verbatim>\<open>OpenMoERunner\<close> call runs with it disabled.
\<close>

theorem mixtral_forward_pass_runs_with_gradients:
  "grad_enabled (initial_state False) \<and>
   trace (snd (infer (MixtralRunner (stub_mixtral_runner True)) (Some stub_ids) (Some stub_mask) []
                 (initial_state False)))
     = [ForwardPass ''TheBloke/mixtral-8x7b-v0.1-AWQ'' True] \<and>
   trace (snd (infer (OpenMoERunner stub_openmoe_runner) (Some stub_ids) (Some stub_mask) []
                 (initial_state False)))
     = [ForwardPass ''OrionZheng/openmoe-8b-1T'' False]"
proof -
  have g: "grad_enabled (initial_state False)" and t: "trace (initial_state False) = []"
    by (simp_all add: initial_state_def)
  have a: "trace (snd (MixtralRunner_call (stub_mixtral_runner True) (Some stub_ids) (Some stub_mask) []
                 (initial_state False)))
     = [ForwardPass ''TheBloke/mixtral-8x7b-v0.1-AWQ'' True]"
    unfolding MixtralRunner_call_trace [OF stub_forward_outcome_any] t
    using g by (simp add: stub_mixtral_runner_def)
  have b: "trace (snd (OpenMoERunner_call stub_openmoe_runner (Some stub_ids) (Some stub_mask) []
                 (initial_state False)))
     = [ForwardPass ''OrionZheng/openmoe-8b-1T'' False]"
    unfolding OpenMoERunner_call_trace(1) [OF stub_to_device] t
    by (simp add: stub_openmoe_runner_def)
  from g a b show ?thesis by simp
qed

subsection \<open>The record only grows\<close>

lemma run_hooks_entries:
  "\<exists>added. entries (acc_at (run_hooks hs p d accs) b) key = entries (acc_at accs b) key @ added"
proof (induction hs arbitrary: accs)
  case Nil
  then show ?case by simp
next
  case (Cons h hs)
  obtain q a where h: "h = (q, a)" by (cases h)
  let ?accs1 = "if q = p then accs(a \<mapsto> dd_append (acc_at accs a) p d) else accs"
  have step: "run_hooks (h # hs) p d accs = run_hooks hs p d ?accs1"
    unfolding h by simp
  have "\<exists>added. entries (acc_at ?accs1 b) key = entries (acc_at accs b) key @ added"
    by (simp add: acc_at_upd entries_dd_append)
  then obtain a1 where a1: "entries (acc_at ?accs1 b) key = entries (acc_at accs b) key @ a1" ..
  from Cons.IH [of ?accs1] obtain a2 where
    a2: "entries (acc_at (run_hooks hs p d ?accs1) b) key = entries (acc_at ?accs1 b) key @ a2" ..
  have "entries (acc_at (run_hooks (h # hs) p d accs) b) key = entries (acc_at accs b) key @ (a1 @ a2)"
    unfolding step a2 a1 by simp
  then show ?case ..
qed

lemma run_hooks_dom:
  "dom (acc_at accs b) \<subseteq> dom (acc_at (run_hooks hs p d accs) b)"
proof (induction hs arbitrary: accs)
  case Nil
  then show ?case by simp
next
  case (Cons h hs)
  obtain q a where h: "h = (q, a)" by (cases h)
  let ?accs1 = "if q = p then accs(a \<mapsto> dd_append (acc_at accs a) p d) else accs"
  have step: "run_hooks (h # hs) p d accs = run_hooks hs p d ?accs1"
    unfolding h by simp
  have "dom (acc_at accs b) \<subseteq> dom (acc_at ?accs1 b)"
    by (auto simp: acc_at_upd dom_dd_append)
  also have "\<dots> \<subseteq> dom (acc_at (run_hooks hs p d ?accs1) b)"
    by (rule Cons.IH)
  finally show ?case unfolding step .
qed

lemma openmoe_forward_entries:
  "\<exists>added. entries (acc_at (openmoe_forward m ps x am kw accs) b) key
             = entries (acc_at accs b) key @ added"
proof (induction ps arbitrary: accs)
  case Nil
  then show ?case by simp
next
  case (Cons p ps)
  let ?accs1 = "run_hooks (oe_hooks m) p (oe_route m p x am kw) accs"
  from run_hooks_entries [of "oe_hooks m" p "oe_route m p x am kw" accs b key]
  obtain a1 where a1: "entries (acc_at ?accs1 b) key = entries (acc_at accs b) key @ a1" ..
  from Cons.IH [of ?accs1] obtain a2 where
    a2: "entries (acc_at (openmoe_forward m ps x am kw ?accs1) b) key
           = entries (acc_at ?accs1 b) key @ a2" ..
  have "entries (acc_at (openmoe_forward m (p # ps) x am kw accs) b) key
          = entries (acc_at accs b) key @ (a1 @ a2)"
    using a1 a2 by simp
  then show ?case ..
qed

lemma openmoe_forward_dom_mono:
  "dom (acc_at accs b) \<subseteq> dom (acc_at (openmoe_forward m ps x am kw accs) b)"
proof (induction ps arbitrary: accs)
  case Nil
  then show ?case by simp
next
  case (Cons p ps)
  let ?accs1 = "run_hooks (oe_hooks m) p (oe_route m p x am kw) accs"
  have "dom (acc_at accs b) \<subseteq> dom (acc_at ?accs1 b)"
    by (rule run_hooks_dom)
  also have "\<dots> \<subseteq> dom (acc_at (openmoe_forward m ps x am kw ?accs1) b)"
    by (rule Cons.IH)
  finally show ?case by simp
qed

lemma OpenMoERunner_call_accumulators:
  "accumulators (snd (OpenMoERunner_call self input_ids attention_mask kwargs s)) = accumulators s \<or>
   (\<exists>x m. accumulators (snd (OpenMoERunner_call self input_ids attention_mask kwargs s))
      = openmoe_forward (omr_model self) (oe_routers (omr_model self)) x m kwargs (accumulators s))"
proof (cases "to_device s input_ids attention_mask")
  case (Inl e)
  then show ?thesis by (simp add: OpenMoERunner_call_raised)
next
  case (Inr xm)
  then obtain x m where "to_device s input_ids attention_mask = Inr (x, m)"
    by (cases xm) simp
  then show ?thesis by (simp add: OpenMoERunner_call_returns) blast
qed

lemma MixtralRunner_call_record:
  "cls_activated_experts (snd (MixtralRunner_call self input_ids attention_mask kwargs s))
     = cls_activated_experts s \<or>
   (\<exists>ls. cls_activated_experts (snd (MixtralRunner_call self input_ids attention_mask kwargs s))
      = snd (record_layers 0 ls (num_experts_per_tok (mr_model self)) (cls_activated_experts s)))"
proof (cases "forward_outcome self input_ids attention_mask kwargs s")
  case (Inl e)
  then show ?thesis by (simp add: MixtralRunner_call_raised)
next
  case (Inr ls)
  then show ?thesis by (auto simp: MixtralRunner_call_cls(1))
qed

lemma infer_append_only:
  "\<exists>added. entries (deref (snd (infer r input_ids attention_mask kwargs s)) (activated_experts r)) key
             = entries (deref s (activated_experts r)) key @ added"
proof (cases r)
  case (OpenMoERunner self)
  let ?a = "omr_activated_experts self"
  let ?acc' = "accumulators (snd (OpenMoERunner_call self input_ids attention_mask kwargs s))"
  from OpenMoERunner_call_accumulators [of self input_ids attention_mask kwargs s]
  have "\<exists>added. entries (acc_at ?acc' ?a) key = entries (acc_at (accumulators s) ?a) key @ added"
  proof
    assume "?acc' = accumulators s"
    then show ?thesis by simp
  next
    assume "\<exists>x m. ?acc' = openmoe_forward (omr_model self) (oe_routers (omr_model self)) x m kwargs
                             (accumulators s)"
    then obtain x m where e: "?acc' = openmoe_forward (omr_model self) (oe_routers (omr_model self))
                             x m kwargs (accumulators s)" by blast
    show ?thesis unfolding e by (rule openmoe_forward_entries)
  qed
  then show ?thesis unfolding OpenMoERunner by simp
next
  case (MixtralRunner self)
  let ?d' = "cls_activated_experts (snd (MixtralRunner_call self input_ids attention_mask kwargs s))"
  from MixtralRunner_call_record [of self input_ids attention_mask kwargs s]
  have "\<exists>added. entries ?d' key = entries (cls_activated_experts s) key @ added"
  proof
    assume "?d' = cls_activated_experts s"
    then show ?thesis by simp
  next
    assume "\<exists>ls. ?d' = snd (record_layers 0 ls (num_experts_per_tok (mr_model self))
                             (cls_activated_experts s))"
    then obtain ls where e: "?d' = snd (record_layers 0 ls (num_experts_per_tok (mr_model self))
                             (cls_activated_experts s))" by blast
    show ?thesis unfolding e using record_layers_indep by blast
  qed
  then show ?thesis unfolding MixtralRunner by simp
qed

lemma infer_dom_mono:
  "dom (deref s (activated_experts r))
     \<subseteq> dom (deref (snd (infer r input_ids attention_mask kwargs s)) (activated_experts r))"
proof (cases r)
  case (OpenMoERunner self)
  let ?a = "omr_activated_experts self"
  let ?acc' = "accumulators (snd (OpenMoERunner_call self input_ids attention_mask kwargs s))"
  from OpenMoERunner_call_accumulators [of self input_ids attention_mask kwargs s]
  have "dom (acc_at (accumulators s) ?a) \<subseteq> dom (acc_at ?acc' ?a)"
  proof
    assume "?acc' = accumulators s"
    then show ?thesis by simp
  next
    assume "\<exists>x m. ?acc' = openmoe_forward (omr_model self) (oe_routers (omr_model self)) x m kwargs
                             (accumulators s)"
    then obtain x m where e: "?acc' = openmoe_forward (omr_model self) (oe_routers (omr_model self))
                             x m kwargs (accumulators s)" by blast
    show ?thesis unfolding e by (rule openmoe_forward_dom_mono)
  qed
  then show ?thesis unfolding OpenMoERunner by simp
next
  case (MixtralRunner self)
  let ?d' = "cls_activated_experts (snd (MixtralRunner_call self input_ids attention_mask kwargs s))"
  from MixtralRunner_call_record [of self input_ids attention_mask kwargs s]
  have "dom (cls_activated_experts s) \<subseteq> dom ?d'"
  proof
    assume "?d' = cls_activated_experts s"
    then show ?thesis by simp
  next
    assume "\<exists>ls. ?d' = snd (record_layers 0 ls (num_experts_per_tok (mr_model self))
                             (cls_activated_experts s))"
    then obtain ls where e: "?d' = snd (record_layers 0 ls (num_experts_per_tok (mr_model self))
                             (cls_activated_experts s))" by blast
    show ?thesis unfolding e using record_layers_dom_mono by blast
  qed
  then show ?thesis unfolding MixtralRunner by simp
qed

lemma infer_returns_record:
  "fst (infer r input_ids attention_mask kwargs s) = Inr ref \<Longrightarrow> ref = activated_experts r"
proof (cases r)
  case (OpenMoERunner self)
  assume a: "fst (infer r input_ids attention_mask kwargs s) = Inr ref"
  show ?thesis
  proof (cases "to_device s input_ids attention_mask")
    case (Inl e)
    with a OpenMoERunner show ?thesis by (simp add: OpenMoERunner_call_raised)
  next
    case (Inr xm)
    then obtain x m where "to_device s input_ids attention_mask = Inr (x, m)"
      by (cases xm) simp
    with a OpenMoERunner show ?thesis by (simp add: OpenMoERunner_call_returns)
  qed
next
  case (MixtralRunner self)
  assume a: "fst (infer r input_ids attention_mask kwargs s) = Inr ref"
  show ?thesis
  proof (cases "forward_outcome self input_ids attention_mask kwargs s")
    case (Inl e)
    with a MixtralRunner show ?thesis by (simp add: MixtralRunner_call_raised)
  next
    case (Inr ls)
    with a MixtralRunner show ?thesis
      by (simp add: MixtralRunner_call_cls(2) split: option.splits)
  qed
qed

lemma openmoe_forward_dom_attached:
  assumes "oe_hooks m = map (\<lambda>q. (q, a)) rs" "distinct rs"
  shows "set ps \<subseteq> set rs \<Longrightarrow>
     dom (acc_at (openmoe_forward m ps x am kw accs) a) = dom (acc_at accs a) \<union> set ps"
proof (cases "ps = []")
  case True
  then show ?thesis by simp
next
  case False
  assume "set ps \<subseteq> set rs"
  from openmoe_forward_dom [OF assms this False] show ?thesis .
qed

lemma from_name_mixtral_record:
  "cls_activated_experts (snd (from_name P ''mixtral'' seq_len ckw s)) = cls_activated_experts s"
  by (simp add: from_name_def MixtralRunner_init_def log_event_def Let_def split: sum.splits)

lemma OpenMoERunner_init_accumulator:
  assumes "OpenMoERunner_init P seq_len ckw s = (Inr (OpenMoERunner oself), s')"
  shows "accumulators s' (omr_activated_experts oself)
           = Some (map_of (map (\<lambda>p. (p, [])) (oe_routers (omr_model oself))))"
  using assms unfolding OpenMoERunner_init_def set_router_hook_def Let_def
  by (auto split: sum.splits)

lemma from_name_openmoe_record:
  assumes "from_name P ''openmoe'' seq_len ckw s = (Inr (OpenMoERunner oself), s')"
  shows "dom (deref s' (activated_experts (OpenMoERunner oself))) = set (oe_routers (omr_model oself))"
proof -
  have d: "dom (map_of (map (\<lambda>p. (p, [] :: index_tensor list)) rs)) = set rs" for rs :: "string list"
    by (simp add: dom_map_of_conv_image_fst image_image)
  from assms have "OpenMoERunner_init P seq_len ckw s = (Inr (OpenMoERunner oself), s')"
    by (simp add: from_name_def)
  from OpenMoERunner_init_accumulator [OF this] show ?thesis
    by (simp add: acc_at_def d)
qed

text \<open>
  Claim C4, amended. A call never removes a key from the record of its runner, whatever
  the runner and the outcome of the call. Building a \<^verbatim>\<open>MixtralRunner\<close> leaves the
  dictionary of the class as it was, so construction fixes no key; a call whose forward pass
  returned the scores \<open>ls\<close> of layers wide enough leaves the keys of before together
  with \<^verbatim>\<open>layer_{i}.router\<close> for every \<open>i\<close> below the number of layers. The record of an
  \<^verbatim>\<open>OpenMoERunner\<close> that \<^verbatim>\<open>from_name\<close> returns has exactly one key per router of its
  model, and a call on a runner as its constructor leaves it, with inputs the device
  transfer accepts, leaves the keys of before together with those of the routers.
\<close>

theorem record_keys_only_grow:
  "dom (deref s (activated_experts r))
     \<subseteq> dom (deref (snd (infer r input_ids attention_mask kwargs s)) (activated_experts r)) \<and>
   cls_activated_experts (snd (from_name P ''mixtral'' seq_len ckw s)) = cls_activated_experts s \<and>
   (forward_outcome self input_ids attention_mask kwargs s = Inr ls \<and>
    list_all (\<lambda>t. num_experts_per_tok (mr_model self) \<le> t_ncols t) ls \<longrightarrow>
      dom (deref (snd (infer (MixtralRunner self) input_ids attention_mask kwargs s))
             (activated_experts (MixtralRunner self)))
        = dom (deref s (activated_experts (MixtralRunner self))) \<union> layer_key ` {..<length ls}) \<and>
   (from_name P ''openmoe'' seq_len ckw s = (Inr (OpenMoERunner oself'), s') \<longrightarrow>
      dom (deref s' (activated_experts (OpenMoERunner oself'))) = set (oe_routers (omr_model oself'))) \<and>
   (attached oself \<and> to_device s input_ids attention_mask = Inr (x, m) \<longrightarrow>
      dom (deref (snd (infer (OpenMoERunner oself) input_ids attention_mask kwargs s))
             (activated_experts (OpenMoERunner oself)))
        = dom (deref s (activated_experts (OpenMoERunner oself)))
          \<union> set (oe_routers (omr_model oself)))"
proof (intro conjI impI)
  show "dom (deref s (activated_experts r))
     \<subseteq> dom (deref (snd (infer r input_ids attention_mask kwargs s)) (activated_experts r))"
    by (rule infer_dom_mono)
next
  show "cls_activated_experts (snd (from_name P ''mixtral'' seq_len ckw s)) = cls_activated_experts s"
    by (rule from_name_mixtral_record)
next
  assume "forward_outcome self input_ids attention_mask kwargs s = Inr ls \<and>
    list_all (\<lambda>t. num_experts_per_tok (mr_model self) \<le> t_ncols t) ls"
  then have fo: "forward_outcome self input_ids attention_mask kwargs s = Inr ls"
    and wide: "list_all (\<lambda>t. num_experts_per_tok (mr_model self) \<le> t_ncols t) ls" by simp_all
  from mixtral_call_entries(4) [OF fo wide]
  show "dom (deref (snd (infer (MixtralRunner self) input_ids attention_mask kwargs s))
             (activated_experts (MixtralRunner self)))
        = dom (deref s (activated_experts (MixtralRunner self))) \<union> layer_key ` {..<length ls}"
    by simp
next
  assume "from_name P ''openmoe'' seq_len ckw s = (Inr (OpenMoERunner oself'), s')"
  then show "dom (deref s' (activated_experts (OpenMoERunner oself'))) = set (oe_routers (omr_model oself'))"
    by (rule from_name_openmoe_record)
next
  assume "attached oself \<and> to_device s input_ids attention_mask = Inr (x, m)"
  then have h: "oe_hooks (omr_model oself)
      = map (\<lambda>q. (q, omr_activated_experts oself)) (oe_routers (omr_model oself))"
    and d: "distinct (oe_routers (omr_model oself))"
    and dev: "to_device s input_ids attention_mask = Inr (x, m)"
    by (simp_all add: attached_def)
  from openmoe_forward_dom_attached [OF h d subset_refl]
  show "dom (deref (snd (infer (OpenMoERunner oself) input_ids attention_mask kwargs s))
             (activated_experts (OpenMoERunner oself)))
        = dom (deref s (activated_experts (OpenMoERunner oself)))
          \<union> set (oe_routers (omr_model oself))"
    by (simp add: OpenMoERunner_call_returns [OF dev])
qed

text \<open>
  Claim C4 as stated fails: the record of the \<^verbatim>\<open>MixtralRunner\<close> that \<^verbatim>\<open>from_name\<close> builds
  in the initial state has no key after construction, and two keys after the first
  call.
\<close>

theorem mixtral_record_keys_appear_after_construction:
  "fst (from_name stub_providers ''mixtral'' 128 [] (initial_state False))
     = Inr (MixtralRunner (stub_mixtral_runner True)) \<and>
   dom (deref (snd (from_name stub_providers ''mixtral'' 128 [] (initial_state False)))
          (activated_experts (MixtralRunner (stub_mixtral_runner True)))) = {} \<and>
   dom (deref (snd (infer (MixtralRunner (stub_mixtral_runner True)) (Some stub_ids)
                      (Some stub_mask) []
                      (snd (from_name stub_providers ''mixtral'' 128 [] (initial_state False)))))
          (activated_experts (MixtralRunner (stub_mixtral_runner True))))
     = {''layer_0.router'', ''layer_1.router''} \<and>
   dom (deref (snd (infer (MixtralRunner (stub_mixtral_runner True)) (Some stub_ids)
                      (Some stub_mask) []
                      (snd (from_name stub_providers ''mixtral'' 128 [] (initial_state False)))))
          (activated_experts (MixtralRunner (stub_mixtral_runner True))))
     \<noteq> dom (deref (snd (from_name stub_providers ''mixtral'' 128 [] (initial_state False)))
          (activated_experts (MixtralRunner (stub_mixtral_runner True))))"
proof -
  let ?S = "snd (from_name stub_providers ''mixtral'' 128 [] (initial_state False))"
  have c: "cls_activated_experts ?S = Map.empty"
    by (simp add: from_name_stub_mixtral) (simp add: initial_state_def)
  have a: "dom (cls_activated_experts (snd (MixtralRunner_call (stub_mixtral_runner True)
              (Some stub_ids) (Some stub_mask) [] ?S))) = {''layer_0.router'', ''layer_1.router''}"
    unfolding stub_call_dom_any c by simp
  from a c show ?thesis
    by (simp add: from_name_stub_mixtral)
qed

text \<open>
  Claim C4, amended, on the synthetic models: the first call of the Mixtral runner
  leaves the two layer keys; the OpenMoE runner has its two router keys after
  construction and after a call.
\<close>

theorem record_keys_only_grow_witness:
  "dom (deref (snd (infer (MixtralRunner (stub_mixtral_runner True)) (Some stub_ids)
                      (Some stub_mask) []
                      (snd (from_name stub_providers ''openmoe'' 128 [] (initial_state False)))))
          ClassAttr)
     = {''layer_0.router'', ''layer_1.router''} \<and>
   dom (deref (snd (from_name stub_providers ''openmoe'' 128 [] (initial_state False)))
          (Accumulator 0))
     = {''blocks.0.router'', ''blocks.1.router''} \<and>
   dom (deref (snd (infer (OpenMoERunner stub_openmoe_runner) (Some stub_ids) (Some stub_mask) []
                      (snd (from_name stub_providers ''openmoe'' 128 [] (initial_state False)))))
          (Accumulator 0))
     = {''blocks.0.router'', ''blocks.1.router''}"
proof -
  let ?S = "snd (from_name stub_providers ''openmoe'' 128 [] (initial_state False))"
  have dev: "to_device ?S (Some stub_ids) (Some stub_mask) = Inr (Some stub_ids, Some stub_mask)"
    by (simp add: to_device_def stub_after_openmoe(1))
  have built: "from_name stub_providers ''openmoe'' 128 [] (initial_state False)
      = (Inr (OpenMoERunner stub_openmoe_runner), ?S)"
    by (simp add: from_name_stub_openmoe)
  note inst = record_keys_only_grow
      [where self = "stub_mixtral_runner True" and input_ids = "Some stub_ids"
         and attention_mask = "Some stub_mask" and kwargs = "[]" and s = ?S
         and ls = "[stub_scores, stub_scores]" and oself = stub_openmoe_runner
         and x = "Some stub_ids" and m = "Some stub_mask"]
  have keys: "layer_key ` {..<length [stub_scores, stub_scores]} = {''layer_0.router'', ''layer_1.router''}"
  proof -
    have "{..<length [stub_scores, stub_scores]} = {0, 1}" by auto
    then show ?thesis by (simp add: layer_key_numerals)
  qed
  have r: "set (oe_routers (omr_model stub_openmoe_runner)) = {''blocks.0.router'', ''blocks.1.router''}"
    and ref: "activated_experts (OpenMoERunner stub_openmoe_runner) = Accumulator 0"
    by (simp_all add: stub_openmoe_runner_def)
  from inst stub_forward_outcome_any [of True ?S] stub_scores_wide [of True]
  have "dom (deref (snd (infer (MixtralRunner (stub_mixtral_runner True)) (Some stub_ids)
                      (Some stub_mask) [] ?S)) (activated_experts (MixtralRunner (stub_mixtral_runner True))))
        = dom (deref ?S (activated_experts (MixtralRunner (stub_mixtral_runner True))))
          \<union> layer_key ` {..<length [stub_scores, stub_scores]}"
    by blast
  then have a: "dom (deref (snd (infer (MixtralRunner (stub_mixtral_runner True)) (Some stub_ids)
                      (Some stub_mask) [] ?S)) ClassAttr) = {''layer_0.router'', ''layer_1.router''}"
    unfolding keys by (simp add: stub_after_openmoe(2))
  from record_keys_only_grow
         [where P = stub_providers and seq_len = 128 and ckw = "[]" and s = "initial_state False"
            and oself' = stub_openmoe_runner and s' = ?S] built
  have "dom (deref ?S (activated_experts (OpenMoERunner stub_openmoe_runner)))
              = set (oe_routers (omr_model stub_openmoe_runner))"
    by blast
  then have b: "dom (deref ?S (Accumulator 0)) = {''blocks.0.router'', ''blocks.1.router''}"
    unfolding ref r .
  from inst stub_attached dev
  have "dom (deref (snd (infer (OpenMoERunner stub_openmoe_runner) (Some stub_ids) (Some stub_mask) [] ?S))
               (activated_experts (OpenMoERunner stub_openmoe_runner)))
        = dom (deref ?S (activated_experts (OpenMoERunner stub_openmoe_runner)))
          \<union> set (oe_routers (omr_model stub_openmoe_runner))"
    by blast
  then have c: "dom (deref (snd (infer (OpenMoERunner stub_openmoe_runner) (Some stub_ids)
                      (Some stub_mask) [] ?S)) (Accumulator 0))
        = {''blocks.0.router'', ''blocks.1.router''}"
    unfolding ref r b by simp
  from a b c show ?thesis by blast
qed

subsection \<open>Two calls in a row\<close>

lemma mixtral_two_calls:
  assumes fresh: "cls_activated_experts s = Map.empty"
    and fo1: "forward_outcome self ids1 am1 kw1 s = Inr ls1"
    and w1: "list_all (\<lambda>t. num_experts_per_tok (mr_model self) \<le> t_ncols t) ls1"
    and fo2: "forward_outcome self ids2 am2 kw2 (snd (MixtralRunner_call self ids1 am1 kw1 s)) = Inr ls2"
    and w2: "list_all (\<lambda>t. num_experts_per_tok (mr_model self) \<le> t_ncols t) ls2"
    and len: "length ls2 = length ls1"
  shows "\<exists>s1 s2. MixtralRunner_call self ids1 am1 kw1 s = (Inr ClassAttr, s1) \<and>
           MixtralRunner_call self ids2 am2 kw2 s1 = (Inr ClassAttr, s2) \<and>
           dom (cls_activated_experts s2) = layer_key ` {..<length ls1} \<and>
           (\<forall>key\<in>dom (cls_activated_experts s2). \<exists>e1 e2.
              entries (cls_activated_experts s1) key = [e1] \<and>
              entries (cls_activated_experts s2) key = [e1, e2])"
proof -
  let ?s1 = "snd (MixtralRunner_call self ids1 am1 kw1 s)"
  let ?s2 = "snd (MixtralRunner_call self ids2 am2 kw2 ?s1)"
  have c1: "MixtralRunner_call self ids1 am1 kw1 s = (Inr ClassAttr, ?s1)"
    by (rule mixtral_call_entries(1) [OF fo1 w1])
  have c2: "MixtralRunner_call self ids2 am2 kw2 ?s1 = (Inr ClassAttr, ?s2)"
    by (rule mixtral_call_entries(1) [OF fo2 w2])
  have d1: "dom (cls_activated_experts ?s1) = layer_key ` {..<length ls1}"
    using mixtral_call_entries(4) [OF fo1 w1] fresh by simp
  have d2: "dom (cls_activated_experts ?s2) = layer_key ` {..<length ls1}"
    using mixtral_call_entries(4) [OF fo2 w2] d1 len by simp
  have e0: "entries (cls_activated_experts s) key = []" for key
    by (simp add: fresh entries_def)
  have each: "\<exists>e1 e2. entries (cls_activated_experts ?s1) key = [e1] \<and>
                 entries (cls_activated_experts ?s2) key = [e1, e2]"
    if "key \<in> dom (cls_activated_experts ?s2)" for key
  proof -
    from that d2 obtain i where i: "i < length ls1" and key: "key = layer_key i" by auto
    from mixtral_call_entries(2) [OF fo1 w1 i] e0
    have a: "entries (cls_activated_experts ?s1) key
           = [map (\<lambda>ws. topk_row ws (num_experts_per_tok (mr_model self)))
                (t_rows (softmax (ls1 ! i) Float32))]"
      unfolding key by simp
    from i len have "i < length ls2" by simp
    from mixtral_call_entries(2) [OF fo2 w2 this]
    have b: "entries (cls_activated_experts ?s2) key
           = entries (cls_activated_experts ?s1) key
             @ [map (\<lambda>ws. topk_row ws (num_experts_per_tok (mr_model self)))
                  (t_rows (softmax (ls2 ! i) Float32))]"
      unfolding key .
    from a b show ?thesis by simp
  qed
  from c1 c2 d2 each show ?thesis by blast
qed

lemma openmoe_two_calls:
  assumes att: "attached oself"
    and keys: "dom (deref s (Accumulator (omr_activated_experts oself))) = set (oe_routers (omr_model oself))"
    and fresh: "\<forall>p\<in>set (oe_routers (omr_model oself)).
                  entries (deref s (Accumulator (omr_activated_experts oself))) p = []"
    and dev1: "to_device s ids1 am1 = Inr (x1, m1)"
    and dev2: "to_device (snd (OpenMoERunner_call oself ids1 am1 kw1 s)) ids2 am2 = Inr (x2, m2)"
  shows "\<exists>s1 s2.
           OpenMoERunner_call oself ids1 am1 kw1 s = (Inr (Accumulator (omr_activated_experts oself)), s1) \<and>
           OpenMoERunner_call oself ids2 am2 kw2 s1 = (Inr (Accumulator (omr_activated_experts oself)), s2) \<and>
           dom (deref s2 (Accumulator (omr_activated_experts oself))) = set (oe_routers (omr_model oself)) \<and>
           (\<forall>key\<in>dom (deref s2 (Accumulator (omr_activated_experts oself))). \<exists>e1 e2.
              entries (deref s1 (Accumulator (omr_activated_experts oself))) key = [e1] \<and>
              entries (deref s2 (Accumulator (omr_activated_experts oself))) key = [e1, e2])"
proof -
  let ?ref = "Accumulator (omr_activated_experts oself)"
  let ?s1 = "snd (OpenMoERunner_call oself ids1 am1 kw1 s)"
  let ?s2 = "snd (OpenMoERunner_call oself ids2 am2 kw2 ?s1)"
  from att have h: "oe_hooks (omr_model oself)
      = map (\<lambda>q. (q, omr_activated_experts oself)) (oe_routers (omr_model oself))"
    and d: "distinct (oe_routers (omr_model oself))"
    by (simp_all add: attached_def)
  have c1: "OpenMoERunner_call oself ids1 am1 kw1 s = (Inr ?ref, ?s1)"
    by (rule attached_call(1) [OF att dev1])
  have c2: "OpenMoERunner_call oself ids2 am2 kw2 ?s1 = (Inr ?ref, ?s2)"
    by (rule attached_call(1) [OF att dev2])
  have d1: "dom (deref ?s1 ?ref) = set (oe_routers (omr_model oself))"
    using openmoe_forward_dom_attached [OF h d subset_refl, of x1 m1 kw1 "accumulators s"] keys
    by (simp add: OpenMoERunner_call_returns [OF dev1])
  have d2: "dom (deref ?s2 ?ref) = set (oe_routers (omr_model oself))"
    using openmoe_forward_dom_attached [OF h d subset_refl, of x2 m2 kw2 "accumulators ?s1"] d1
    by (simp add: OpenMoERunner_call_returns [OF dev2])
  have each: "\<exists>e1 e2. entries (deref ?s1 ?ref) key = [e1] \<and> entries (deref ?s2 ?ref) key = [e1, e2]"
    if "key \<in> dom (deref ?s2 ?ref)" for key
  proof -
    from that d2 have k: "key \<in> set (oe_routers (omr_model oself))" by simp
    with fresh have e0: "entries (deref s ?ref) key = []" by blast
    from attached_call(2) [OF att dev1, of kw1 key] k e0
    have a: "entries (deref ?s1 ?ref) key = [oe_route (omr_model oself) key x1 m1 kw1]"
      by simp
    from attached_call(2) [OF att dev2, of kw2 key] k
    have b: "entries (deref ?s2 ?ref) key
           = entries (deref ?s1 ?ref) key @ [oe_route (omr_model oself) key x2 m2 kw2]"
      by simp
    from a b show ?thesis by simp
  qed
  from c1 c2 d2 each show ?thesis by blast
qed

lemma OpenMoERunner_call_cuda:
  "cuda_available (snd (OpenMoERunner_call self input_ids attention_mask kwargs s)) = cuda_available s"
proof (cases "to_device s input_ids attention_mask")
  case (Inl e)
  then show ?thesis by (simp add: OpenMoERunner_call_raised)
next
  case (Inr xm)
  then obtain x m where "to_device s input_ids attention_mask = Inr (x, m)"
    by (cases xm) simp
  then show ?thesis by (simp add: OpenMoERunner_call_returns)
qed

text \<open>
  Claim C6 asks that after two calls on the same runner every per-layer sequence has
  length 2, its first entry being that of the first call. The lemmas above show this
  for a runner whose record is empty before its first call. The record of a second
  \<^verbatim>\<open>MixtralRunner\<close>, built after the first was called once, is not: it already holds
  one entry for layer 0 when the runner is built, and after the two calls on this
  runner the sequence has length 3, its first entry being the one found at
  construction. Both runners read the dictionary of the class.
\<close>

theorem second_mixtral_runner_has_three_entries_after_two_calls:
  "fst (from_name stub_providers ''mixtral'' 128 [(''use_quant'', PyBool False)] first_runner_called)
     = Inr (MixtralRunner (stub_mixtral_runner False)) \<and>
   length (entries (deref second_runner_built
                      (activated_experts (MixtralRunner (stub_mixtral_runner False))))
             ''layer_0.router'') = 1 \<and>
   length (entries (deref second_runner_called_twice
                      (activated_experts (MixtralRunner (stub_mixtral_runner False))))
             ''layer_0.router'') = 3 \<and>
   entries (deref second_runner_called_twice
              (activated_experts (MixtralRunner (stub_mixtral_runner False))))
     ''layer_0.router'' ! 0
     = entries (deref second_runner_built
                  (activated_experts (MixtralRunner (stub_mixtral_runner False))))
         ''layer_0.router'' ! 0"
proof -
  let ?k = "''layer_0.router''"
  have c0: "cls_activated_experts (snd (from_name stub_providers ''mixtral'' 128 []
              (initial_state False))) = Map.empty"
    by (simp add: from_name_stub_mixtral) (simp add: initial_state_def)
  have e1: "entries (cls_activated_experts first_runner_called) ?k = [[[0, 1], [2, 0]]]"
    unfolding first_runner_called_def infer.simps stub_call_entries_any c0
    by (simp add: entries_def)
  have b: "cls_activated_experts second_runner_built = cls_activated_experts first_runner_called"
    unfolding second_runner_built_def by (rule from_name_mixtral_record)
  have e2: "entries (cls_activated_experts second_runner_built) ?k = [[[0, 1], [2, 0]]]"
    unfolding b by (rule e1)
  have e3: "entries (cls_activated_experts second_runner_called_twice) ?k
      = [[[0, 1], [2, 0]], [[0, 1], [2, 0]], [[0, 1], [2, 0]]]"
    unfolding second_runner_called_twice_def infer.simps stub_call_entries_any e2 by simp
  have r: "fst (from_name stub_providers ''mixtral'' 128 [(''use_quant'', PyBool False)]
                  first_runner_called) = Inr (MixtralRunner (stub_mixtral_runner False))"
    by (simp add: from_name_stub_mixtral)
  from r e2 e3 show ?thesis by simp
qed

end
